theory Spec2Isabelle
  imports Complex_Main "HOL-Library.Log_Nat"
begin

section \<open>The cart drawer controller of \<^verbatim>\<open>assets/cart.js\<close>\<close>

text \<open>
  The class \<^verbatim>\<open>CartDrawer\<close> is embedded as functions over an explicit state: the
  controller's own fields, the part of the document it writes, and three logs (requests
  sent to the cart API, events dispatched on the document, console errors). An
  \<^verbatim>\<open>async\<close> method is cut at its \<^verbatim>\<open>await\<close>s into phases: the synchronous part up to
  the request, and the continuation that runs when the response is in. The response is an
  argument of the continuation. What the controller only reads from the page (the result
  of a selector query, \<^verbatim>\<open>document.contains\<close>) is an argument as well, since the
  templates that produce the markup are not part of the script.
\<close>

subsection \<open>Values\<close>

text \<open>A JavaScript number used as a quantity: an integer or \<^verbatim>\<open>NaN\<close>.\<close>

datatype jsnum = NaN | Number int

text \<open>What a promise of the controller resolves to.\<close>

datatype 'a jsresult = Undefined | Null | Value 'a

text \<open>Elements that can hold the focus.\<close>

datatype elem = Body | DrawerRoot | Node nat

record line_item =
  key :: string
  variant_id :: int
  quantity :: int
  title :: string
  product_title :: string
  variant_title :: "string option"
  final_line_price :: int
  image_url :: "string option"
  url :: string

record cart =
  item_count :: int
  total_price :: int
  items :: "line_item list"

text \<open>
  A response of the cart API as the script sees it: \<^verbatim>\<open>fetch\<close> rejects (with an error
  message), or it resolves to a response with its \<^verbatim>\<open>ok\<close> flag and a body, on which
  \<^verbatim>\<open>response.json()\<close> either throws (with the parser's message) or yields a value.
\<close>

datatype 'a body = Unparsable string | Parsed 'a

datatype 'a response = Rejected string | Response bool "'a body"

type_synonym props = "(string \<times> string) list"

datatype request =
    GET_cart
  | POST_add "string option" jsnum props
  | POST_change string jsnum

datatype event =
    Item_added "string option" jsnum "cart option"
  | Cart_updated cart

text \<open>
  The content of the items container: the markup the template shipped, or the
  concatenation of \<^verbatim>\<open>renderItem\<close> over a list of line items (\<^verbatim>\<open>renderItem\<close>
  reads nothing but its argument, so the list determines the markup).
\<close>

datatype markup = Template_markup | Items_markup "line_item list"

subsection \<open>State\<close>

text \<open>
  The fields of \<^verbatim>\<open>CartDrawer\<close>. An element field is \<open>True\<close> when
  \<^verbatim>\<open>getElementById\<close> found the element; the node list \<^verbatim>\<open>countElements\<close> is the
  list \<open>badges\<close> of the page.
\<close>

record controller =
  drawer :: bool
  overlay :: bool
  itemsContainer :: bool
  subtotalElement :: bool
  emptyMessage :: bool
  cartContent :: bool
  isOpen :: bool
  isUpdating :: bool
  lastActiveElement :: "elem option"
  scrollPosition :: int

text \<open>
  What the controller writes in the document. A badge is its \<^verbatim>\<open>textContent\<close> and its
  \<^verbatim>\<open>style.display\<close>; a toast is the message of an element appended by
  \<^verbatim>\<open>showError\<close>.
\<close>

record page =
  drawer_data_open :: "string option"
  drawer_aria_hidden :: "string option"
  drawer_loading :: bool
  overlay_visible :: bool
  body_data_open :: "string option"
  body_position :: string
  body_top :: string
  body_width :: string
  scrollY :: int
  activeElement :: "elem option"
  badges :: "(string \<times> string) list"
  subtotal_text :: string
  empty_display :: string
  content_display :: string
  items_html :: markup
  toasts :: "string list"

record world =
  ctl :: controller
  doc :: page
  requests :: "request list"
  events :: "event list"
  console :: "(string \<times> string) list"

text \<open>What the controller reads from the page at the time of a call.\<close>

record doc_query =
  focusable :: "elem list"
  contains :: "elem \<Rightarrow> bool"
  cart_toggle :: "elem option"

subsection \<open>Numbers to text\<close>

definition digit_char :: "nat \<Rightarrow> char" where
  "digit_char d = ''0123456789'' ! d"

function show_nat :: "nat \<Rightarrow> string" where
  "show_nat n =
     (if n < 10 then [digit_char n] else show_nat (n div 10) @ [digit_char (n mod 10)])"
  by pat_completeness auto
termination
  by (relation "measure id") auto

declare show_nat.simps [simp del]

subsection \<open>Double precision\<close>

text \<open>
  The numbers of the script are IEEE doubles. The ones met here come from integers (a
  count, a price in minor units) and from one division by 100, so a double is a rational
  or an infinity; \<^verbatim>\<open>NaN\<close> and the negative zero do not arise.
\<close>

datatype double = Finite rat | PosInf | NegInf

text \<open>The exponent of a positive value \<open>a\<close>: the largest \<open>e\<close> with \<open>2 ^ e \<le> a\<close>.\<close>

definition binary_exponent :: "rat \<Rightarrow> int" where
  "binary_exponent a =
     (if 1 \<le> a then int (floorlog 2 (nat \<lfloor>a\<rfloor>)) - 1
      else - int (floorlog 2 (nat \<lceil>1 / a\<rceil> - 1)))"

definition round_half_even :: "rat \<Rightarrow> int" where
  "round_half_even z =
     (let f = \<lfloor>z\<rfloor>; r = z - of_int f
      in if r < 1 / 2 then f else if 1 / 2 < r then f + 1
         else if even f then f else f + 1)"

text \<open>
  Rounding to the nearest double, ties to the even significand: 53 significant bits,
  exponents from \<open>-1022\<close> (below that the spacing stays \<open>2 ^ -1074\<close>), and an infinity
  once the rounded value reaches \<open>2 ^ 1024\<close>.
\<close>

definition round_double :: "rat \<Rightarrow> double" where
  "round_double x =
     (if x = 0 then Finite 0
      else
        let a = \<bar>x\<bar>;
            e = max (binary_exponent a) (- 1022);
            q = 2 powi (e - 52);
            m = q * of_int (round_half_even (a / q))
        in if 2 ^ 1024 \<le> m then (if x < 0 then NegInf else PosInf)
           else Finite (if x < 0 then - m else m))"

text \<open>
  \<^verbatim>\<open>Number::toString\<close> on a double that is a non-negative integer: the fewest digits
  \<open>s\<close> (at most 17) such that \<open>s\<close> times a power of ten reads back as the same
  double, the nearest such \<open>s\<close> if there are two; written out with zeros up to 21
  digits and in exponent notation beyond.
\<close>

definition reads_back :: "rat \<Rightarrow> nat \<Rightarrow> nat \<Rightarrow> bool" where
  "reads_back a scale s = (round_double (of_nat (s * scale)) = Finite a)"

definition nearest_digits :: "rat \<Rightarrow> nat \<Rightarrow> nat option" where
  "nearest_digits a scale =
     (let lo = nat \<lfloor>a / of_nat scale\<rfloor>; hi = lo + 1
      in if reads_back a scale lo
         then (if reads_back a scale hi
               then (let dl = a - of_nat (lo * scale); dh = of_nat (hi * scale) - a
                     in if dl < dh then Some lo else if dh < dl then Some hi
                        else if even lo then Some lo else Some hi)
               else Some lo)
         else if reads_back a scale hi then Some hi else None)"

definition shortest_digits :: "rat \<Rightarrow> nat \<Rightarrow> (nat \<times> nat) option" where
  "shortest_digits a n =
     (case List.map_filter (\<lambda>k. map_option (Pair k) (nearest_digits a (10 ^ (n - k))))
             [1..<Suc (min n 17)] of
        [] \<Rightarrow> None
      | ks # _ \<Rightarrow> Some ks)"

definition toString_integral :: "rat \<Rightarrow> string" where
  "toString_integral a =
     (if a = 0 then ''0''
      else
        let n = floorlog 10 (nat \<lfloor>a\<rfloor>)
        in case shortest_digits a n of
             None \<Rightarrow> []
           | Some (k, s) \<Rightarrow>
               let (ds, n') = (if s = 10 ^ k then (''1'', Suc n) else (show_nat s, n))
               in if n' \<le> 21 then ds @ replicate (n' - length ds) CHR ''0''
                  else (if length ds = 1 then ds else hd ds # ''.'' @ tl ds)
                       @ ''e+'' @ show_nat (n' - 1))"

text \<open>The text of a number with an integer value, as in \<^verbatim>\<open>el.textContent = count\<close>.\<close>

definition number_text :: "int \<Rightarrow> string" where
  "number_text i =
     (case round_double (of_int i) of
        PosInf \<Rightarrow> ''Infinity''
      | NegInf \<Rightarrow> ''-Infinity''
      | Finite x \<Rightarrow> (if x < 0 then ''-'' else '''') @ toString_integral \<bar>x\<bar>)"

text \<open>The division \<^verbatim>\<open>cents / 100\<close>.\<close>

definition divide_by_100 :: "double \<Rightarrow> double" where
  "divide_by_100 d =
     (case d of
        Finite a \<Rightarrow> round_double (a / 100)
      | PosInf \<Rightarrow> PosInf
      | NegInf \<Rightarrow> NegInf)"

text \<open>
  \<^verbatim>\<open>Number.prototype.toFixed(2)\<close>: an infinity is written as such; otherwise the
  sign, and then, for a magnitude of at least \<open>10 ^ 21\<close>, what \<^verbatim>\<open>toString\<close> gives,
  else the integer \<open>n\<close> for which \<open>n / 100\<close> is nearest to the magnitude (the larger
  one on a tie), written with two digits after the point.
\<close>

definition toFixed2 :: "double \<Rightarrow> string" where
  "toFixed2 d =
     (case d of
        PosInf \<Rightarrow> ''Infinity''
      | NegInf \<Rightarrow> ''-Infinity''
      | Finite x \<Rightarrow>
          let s = (if x < 0 then ''-'' else ''''); a = \<bar>x\<bar>
          in if 10 ^ 21 \<le> a then s @ toString_integral a
             else
               let n = nat \<lfloor>a * 100 + 1 / 2\<rfloor>
               in s @ show_nat (n div 100) @ ''.'' @
                    [digit_char (n mod 100 div 10), digit_char (n mod 10)])"

text \<open>\<^verbatim>\<open>formatMoney(cents)\<close>, on the number whose value is the integer \<open>cents\<close>.\<close>

definition formatMoney :: "int \<Rightarrow> string" where
  "formatMoney cents = ''$'' @ toFixed2 (divide_by_100 (round_double (of_int cents)))"

subsection \<open>Text to numbers\<close>

definition is_js_space :: "char \<Rightarrow> bool" where
  "is_js_space c = (c \<in> set [CHR '' '', CHR 0x09, CHR 0x0A, CHR 0x0B, CHR 0x0C, CHR 0x0D])"

definition is_digit :: "char \<Rightarrow> bool" where
  "is_digit c = (c \<in> set ''0123456789'')"

definition digit_val :: "char \<Rightarrow> nat" where
  "digit_val c = of_char c - 48"

definition dec_val :: "string \<Rightarrow> nat" where
  "dec_val ds = foldl (\<lambda>a c. 10 * a + digit_val c) 0 ds"

text \<open>
  \<^verbatim>\<open>parseInt(s, 10)\<close>: leading white space is skipped, a sign is read, and the longest
  run of decimal digits that follows is the value; with no digit there the result is
  \<^verbatim>\<open>NaN\<close>. White space is the ASCII part of what JavaScript skips, and the value
  is the exact integer (the script's doubles are exact up to \<open>2 ^ 53\<close>).
\<close>

definition parseInt10 :: "string \<Rightarrow> jsnum" where
  "parseInt10 s =
     (let t = dropWhile is_js_space s;
          neg = (t \<noteq> [] \<and> hd t = CHR ''-'');
          u = (if t \<noteq> [] \<and> (hd t = CHR ''-'' \<or> hd t = CHR ''+'') then tl t else t);
          ds = takeWhile is_digit u
      in if ds = [] then NaN
         else Number ((if neg then - 1 else 1) * int (dec_val ds)))"

text \<open>\<^verbatim>\<open>a || '1'\<close> on a string that may be missing: the empty string is falsy.\<close>

definition or_default :: "string option \<Rightarrow> string \<Rightarrow> string" where
  "or_default v d = (case v of None \<Rightarrow> d | Some s \<Rightarrow> if s = [] then d else s)"

definition js_add :: "jsnum \<Rightarrow> int \<Rightarrow> jsnum" where
  "js_add x d = (case x of NaN \<Rightarrow> NaN | Number n \<Rightarrow> Number (n + d))"

text \<open>\<^verbatim>\<open>Math.max(0, x)\<close>.\<close>

definition js_max0 :: "jsnum \<Rightarrow> jsnum" where
  "js_max0 x = (case x of NaN \<Rightarrow> NaN | Number n \<Rightarrow> Number (max 0 n))"

subsection \<open>Small effects\<close>

text \<open>
  \<^verbatim>\<open>element.focus()\<close> makes the element the active one. \<^verbatim>\<open>showError\<close> appends a
  toast to the body; the timers that fade it in and remove it after three seconds are
  outside the model, so \<open>toasts\<close> lists every toast shown so far.
  \<^verbatim>\<open>console.error\<close> is logged as its label and the message of the error.
\<close>

definition focus :: "elem \<Rightarrow> world \<Rightarrow> world" where
  "focus e w = w\<lparr>doc := (doc w)\<lparr>activeElement := Some e\<rparr>\<rparr>"

definition setLoading :: "bool \<Rightarrow> world \<Rightarrow> world" where
  "setLoading loading w =
     (if drawer (ctl w) then w\<lparr>doc := (doc w)\<lparr>drawer_loading := loading\<rparr>\<rparr> else w)"

definition set_updating :: "bool \<Rightarrow> world \<Rightarrow> world" where
  "set_updating b w = w\<lparr>ctl := (ctl w)\<lparr>isUpdating := b\<rparr>\<rparr>"

definition showError :: "string \<Rightarrow> world \<Rightarrow> world" where
  "showError message w = w\<lparr>doc := (doc w)\<lparr>toasts := toasts (doc w) @ [message]\<rparr>\<rparr>"

definition console_error :: "string \<Rightarrow> string \<Rightarrow> world \<Rightarrow> world" where
  "console_error label message w = w\<lparr>console := console w @ [(label, message)]\<rparr>"

definition issue :: "request \<Rightarrow> world \<Rightarrow> world" where
  "issue r w = w\<lparr>requests := requests w @ [r]\<rparr>"

definition dispatch :: "event \<Rightarrow> world \<Rightarrow> world" where
  "dispatch e w = w\<lparr>events := events w @ [e]\<rparr>"

definition lockScroll :: "world \<Rightarrow> world" where
  "lockScroll w =
     (let sp = scrollY (doc w)
      in w\<lparr>ctl := (ctl w)\<lparr>scrollPosition := sp\<rparr>,
           doc := (doc w)\<lparr>body_position := ''fixed'',
                           body_top := ''-'' @ number_text sp @ ''px'',
                           body_width := ''100%''\<rparr>\<rparr>)"

definition unlockScroll :: "world \<Rightarrow> world" where
  "unlockScroll w =
     w\<lparr>doc := (doc w)\<lparr>body_position := '''', body_top := '''', body_width := '''',
                       scrollY := scrollPosition (ctl w)\<rparr>\<rparr>"

definition getFocusableElements :: "doc_query \<Rightarrow> world \<Rightarrow> elem list" where
  "getFocusableElements q w = (if drawer (ctl w) then focusable q else [])"

subsection \<open>The drawer\<close>

text \<open>The methods \<^verbatim>\<open>open\<close>, \<^verbatim>\<open>close\<close> and \<^verbatim>\<open>toggle\<close>.\<close>

definition open_drawer :: "doc_query \<Rightarrow> world \<Rightarrow> world" where
  "open_drawer q w =
     (if \<not> drawer (ctl w) then w
      else
        let w1 = w\<lparr>ctl := (ctl w)\<lparr>lastActiveElement := activeElement (doc w),
                                  isOpen := True\<rparr>\<rparr>;
            w2 = w1\<lparr>doc := (doc w1)\<lparr>drawer_data_open := Some ''true'',
                                    overlay_visible :=
                                      (if overlay (ctl w1) then True
                                       else overlay_visible (doc w1)),
                                    body_data_open := Some ''true''\<rparr>\<rparr>;
            w3 = lockScroll w2;
            w4 = w3\<lparr>doc := (doc w3)\<lparr>drawer_aria_hidden := Some ''false''\<rparr>\<rparr>;
            firstFocusable =
              (case getFocusableElements q w4 of [] \<Rightarrow> DrawerRoot | f # _ \<Rightarrow> f)
        in focus firstFocusable w4)"

definition close_drawer :: "doc_query \<Rightarrow> world \<Rightarrow> world" where
  "close_drawer q w =
     (if \<not> drawer (ctl w) then w
      else
        let w1 = w\<lparr>ctl := (ctl w)\<lparr>isOpen := False\<rparr>\<rparr>;
            w2 = w1\<lparr>doc := (doc w1)\<lparr>drawer_data_open := Some ''false'',
                                    overlay_visible :=
                                      (if overlay (ctl w1) then False
                                       else overlay_visible (doc w1)),
                                    body_data_open := None,
                                    drawer_aria_hidden := Some ''true''\<rparr>\<rparr>;
            w3 = unlockScroll w2;
            target =
              (case lastActiveElement (ctl w3) of
                 None \<Rightarrow> cart_toggle q
               | Some e \<Rightarrow> if contains q e then Some e else cart_toggle q)
        in case target of None \<Rightarrow> w3 | Some t \<Rightarrow> focus t w3)"

definition toggle_drawer :: "doc_query \<Rightarrow> world \<Rightarrow> world" where
  "toggle_drawer q w = (if isOpen (ctl w) then close_drawer q w else open_drawer q w)"

text \<open>A sequence of calls of \<^verbatim>\<open>open\<close> and \<^verbatim>\<open>close\<close>, each with the page it finds.\<close>

datatype drawer_call = Open | Close

fun call_drawer :: "drawer_call \<times> doc_query \<Rightarrow> world \<Rightarrow> world" where
  "call_drawer (Open, q) w = open_drawer q w"
| "call_drawer (Close, q) w = close_drawer q w"

fun run_calls :: "(drawer_call \<times> doc_query) list \<Rightarrow> world \<Rightarrow> world" where
  "run_calls [] w = w"
| "run_calls (c # cs) w = run_calls cs (call_drawer c w)"

subsection \<open>Rendering\<close>

definition renderCart :: "cart \<Rightarrow> world \<Rightarrow> world" where
  "renderCart c w =
     (let d0 = doc w;
          d1 = d0\<lparr>badges :=
                    map (\<lambda>_. (number_text (item_count c),
                              if item_count c > 0 then '''' else ''none'')) (badges d0)\<rparr>;
          d2 = (if subtotalElement (ctl w)
                then d1\<lparr>subtotal_text := formatMoney (total_price c)\<rparr> else d1);
          d3 = (if emptyMessage (ctl w) \<and> cartContent (ctl w)
                then (if item_count c = 0
                      then d2\<lparr>empty_display := '''', content_display := ''none''\<rparr>
                      else d2\<lparr>empty_display := ''none'', content_display := ''''\<rparr>)
                else d2);
          d4 = (if itemsContainer (ctl w)
                then d3\<lparr>items_html := Items_markup (items c)\<rparr> else d3)
      in w\<lparr>doc := d4\<rparr>)"

subsection \<open>The cart operations\<close>

text \<open>
  \<^verbatim>\<open>fetchCart\<close>: the request, and the continuation on its response. Every failure is
  caught, logged to the console, and answered with \<^verbatim>\<open>null\<close>.
\<close>

definition fetchCart_request :: "world \<Rightarrow> world" where
  "fetchCart_request w = issue GET_cart w"

definition fetchCart_response :: "cart response \<Rightarrow> world \<Rightarrow> world \<times> cart jsresult" where
  "fetchCart_response r w =
     (case r of
        Rejected m \<Rightarrow> (console_error ''Cart fetch error:'' m w, Null)
      | Response ok b \<Rightarrow>
          if \<not> ok then (console_error ''Cart fetch error:'' ''Failed to fetch cart'' w, Null)
          else (case b of
                  Unparsable m \<Rightarrow> (console_error ''Cart fetch error:'' m w, Null)
                | Parsed c \<Rightarrow> (renderCart c w, Value c)))"

definition fetchCart :: "cart response \<Rightarrow> world \<Rightarrow> world \<times> cart jsresult" where
  "fetchCart r w = fetchCart_response r (fetchCart_request w)"

text \<open>The \<^verbatim>\<open>finally\<close> block of \<^verbatim>\<open>addItem\<close> and \<^verbatim>\<open>updateItem\<close>.\<close>

definition finally_block :: "world \<Rightarrow> world" where
  "finally_block w = setLoading False (set_updating False w)"

text \<open>
  \<^verbatim>\<open>addItem\<close>. The guard and the POST; the continuation on the POST's response, which
  on success sends the follow-up GET; and the continuation on the GET's response. The
  body of a failed POST is parsed for the field \<^verbatim>\<open>description\<close>: a parsed body is a
  JSON object, and \<open>Parsed d\<close> carries its description (\<open>None\<close> when the object has
  none; the empty string is falsy, as in \<^verbatim>\<open>error.description || 'Failed to add item'\<close>).
  Whatever is thrown inside the \<^verbatim>\<open>try\<close> block, the rejection of \<^verbatim>\<open>fetch\<close> and
  the error of \<^verbatim>\<open>response.json()\<close> included, reaches the \<^verbatim>\<open>catch\<close> block, which
  shows the message of what it caught.
\<close>

definition addItem_request ::
    "string option \<Rightarrow> jsnum \<Rightarrow> props \<Rightarrow> world \<Rightarrow> world option" where
  "addItem_request variantId qty properties w =
     (if isUpdating (ctl w) then None
      else Some (issue (POST_add variantId qty properties)
                   (setLoading True (set_updating True w))))"

definition addItem_catch :: "string \<Rightarrow> world \<Rightarrow> world \<times> cart jsresult" where
  "addItem_catch message w =
     (finally_block (showError message (console_error ''Add to cart error:'' message w)),
      Null)"

definition addItem_posted ::
    "string option response \<Rightarrow> world \<Rightarrow> (world \<times> cart jsresult) + world" where
  "addItem_posted r w =
     (case r of
        Rejected m \<Rightarrow> Inl (addItem_catch m w)
      | Response ok b \<Rightarrow>
          if \<not> ok
          then (case b of
                  Unparsable m \<Rightarrow> Inl (addItem_catch m w)
                | Parsed description \<Rightarrow>
                    Inl (addItem_catch
                           (case description of
                              None \<Rightarrow> ''Failed to add item''
                            | Some s \<Rightarrow> if s = [] then ''Failed to add item'' else s) w))
          else Inr (fetchCart_request w))"

definition addItem_fetched ::
    "string option \<Rightarrow> jsnum \<Rightarrow> cart response \<Rightarrow> doc_query \<Rightarrow> world
      \<Rightarrow> world \<times> cart jsresult" where
  "addItem_fetched variantId qty r q w =
     (let (w1, res) = fetchCart_response r w;
          w2 = open_drawer q w1;
          w3 = dispatch (Item_added variantId qty
                           (case res of Value c \<Rightarrow> Some c | _ \<Rightarrow> None)) w2
      in (finally_block w3, res))"

definition addItem ::
    "string option \<Rightarrow> jsnum \<Rightarrow> props \<Rightarrow> string option response \<Rightarrow> cart response
      \<Rightarrow> doc_query \<Rightarrow> world \<Rightarrow> world \<times> cart jsresult" where
  "addItem variantId qty properties rp rg q w =
     (case addItem_request variantId qty properties w of
        None \<Rightarrow> (w, Undefined)
      | Some w1 \<Rightarrow>
          (case addItem_posted rp w1 of
             Inl done \<Rightarrow> done
           | Inr w2 \<Rightarrow> addItem_fetched variantId qty rg q w2))"

text \<open>
  \<^verbatim>\<open>updateItem\<close> and \<^verbatim>\<open>removeItem\<close>. The \<^verbatim>\<open>catch\<close> block of
  \<^verbatim>\<open>updateItem\<close> logs what it caught and shows a fixed message.
\<close>

definition updateItem_request :: "string \<Rightarrow> jsnum \<Rightarrow> world \<Rightarrow> world option" where
  "updateItem_request k qty w =
     (if isUpdating (ctl w) then None
      else Some (issue (POST_change k qty) (setLoading True (set_updating True w))))"

definition updateItem_catch :: "string \<Rightarrow> world \<Rightarrow> world \<times> cart jsresult" where
  "updateItem_catch message w =
     (finally_block
        (showError ''Failed to update cart'' (console_error ''Update cart error:'' message w)),
      Null)"

definition updateItem_response :: "cart response \<Rightarrow> world \<Rightarrow> world \<times> cart jsresult" where
  "updateItem_response r w =
     (case r of
        Rejected m \<Rightarrow> updateItem_catch m w
      | Response ok b \<Rightarrow>
          if \<not> ok then updateItem_catch ''Failed to update item'' w
          else (case b of
                  Unparsable m \<Rightarrow> updateItem_catch m w
                | Parsed c \<Rightarrow>
                    (finally_block (dispatch (Cart_updated c) (renderCart c w)), Value c)))"

definition updateItem ::
    "string \<Rightarrow> jsnum \<Rightarrow> cart response \<Rightarrow> world \<Rightarrow> world \<times> cart jsresult" where
  "updateItem k qty r w =
     (case updateItem_request k qty w of
        None \<Rightarrow> (w, Undefined)
      | Some w1 \<Rightarrow> updateItem_response r w1)"

definition removeItem :: "string \<Rightarrow> cart response \<Rightarrow> world \<Rightarrow> world \<times> cart jsresult" where
  "removeItem k r w = updateItem k (Number 0) r w"

subsection \<open>Handlers\<close>

text \<open>
  \<^verbatim>\<open>handleQuantityChange\<close>: \<open>field\<close> is the value of the quantity field with the
  button's key (\<open>None\<close> when the drawer has no such field).
\<close>

definition stepped_quantity :: "string option \<Rightarrow> int \<Rightarrow> jsnum" where
  "stepped_quantity field change =
     (let currentQty = parseInt10 (or_default field ''1'');
          newQty = js_max0 (js_add currentQty change)
      in newQty)"

definition handleQuantityChange ::
    "string \<Rightarrow> string option \<Rightarrow> int \<Rightarrow> cart response \<Rightarrow> world \<Rightarrow> world" where
  "handleQuantityChange k field change r w =
     fst (updateItem k (stepped_quantity field change) r w)"

definition handleRemoveItem :: "string \<Rightarrow> cart response \<Rightarrow> world \<Rightarrow> world" where
  "handleRemoveItem k r w = fst (removeItem k r w)"

text \<open>The \<^verbatim>\<open>change\<close> listener of the quantity fields.\<close>

definition quantity_input_changed ::
    "string \<Rightarrow> string \<Rightarrow> cart response \<Rightarrow> world \<Rightarrow> world" where
  "quantity_input_changed k v r w =
     (case parseInt10 v of
        NaN \<Rightarrow> w
      | Number n \<Rightarrow> if n \<ge> 0 then fst (updateItem k (Number n) r w) else w)"

text \<open>
  \<^verbatim>\<open>handleAddToCart\<close>: the form is its entries in order (what \<^verbatim>\<open>FormData\<close> yields)
  and its submit control, if it has one.
\<close>

record submit_button =
  disabled :: bool
  textContent :: string
  originalText :: "string option"

record form =
  entries :: "(string \<times> string) list"
  submit :: "submit_button option"

fun remove_first :: "char \<Rightarrow> string \<Rightarrow> string" where
  "remove_first c [] = []"
| "remove_first c (x # xs) = (if x = c then xs else x # remove_first c xs)"

fun set_prop :: "string \<Rightarrow> string \<Rightarrow> props \<Rightarrow> props" where
  "set_prop k v [] = [(k, v)]"
| "set_prop k v ((k', v') # ps) =
     (if k' = k then (k, v) # ps else (k', v') # set_prop k v ps)"

fun collect_properties :: "(string \<times> string) list \<Rightarrow> props \<Rightarrow> props" where
  "collect_properties [] ps = ps"
| "collect_properties ((k, v) # es) ps =
     (if take 11 k = ''properties[''
      then collect_properties es (set_prop (remove_first CHR '']'' (drop 11 k)) v ps)
      else collect_properties es ps)"

definition form_quantity :: "form \<Rightarrow> jsnum" where
  "form_quantity f = parseInt10 (or_default (map_of (entries f) ''quantity'') ''1'')"

definition handleAddToCart ::
    "form \<Rightarrow> string option response \<Rightarrow> cart response \<Rightarrow> doc_query \<Rightarrow> world
      \<Rightarrow> world \<times> form" where
  "handleAddToCart f rp rg q w =
     (let variantId = map_of (entries f) ''id'';
          qty = form_quantity f;
          properties = collect_properties (entries f) [];
          f1 = f\<lparr>submit :=
                   map_option (\<lambda>b. b\<lparr>disabled := True,
                                      originalText := Some (textContent b),
                                      textContent := ''Adding...''\<rparr>) (submit f)\<rparr>;
          w1 = fst (addItem variantId qty properties rp rg q w);
          f2 = f1\<lparr>submit :=
                    map_option (\<lambda>b. b\<lparr>disabled := False,
                                       textContent := (case originalText b of
                                                         None \<Rightarrow> textContent b
                                                       | Some t \<Rightarrow> t)\<rparr>) (submit f1)\<rparr>
      in (w1, f2))"

subsection \<open>The focus trap\<close>

text \<open>
  \<^verbatim>\<open>handleTabKey\<close>; the Boolean of the result is whether the handler called
  \<^verbatim>\<open>preventDefault\<close>.
\<close>

definition handleTabKey :: "doc_query \<Rightarrow> bool \<Rightarrow> world \<Rightarrow> world \<times> bool" where
  "handleTabKey q shiftKey w =
     (let fs = getFocusableElements q w
      in if fs = [] then (w, True)
         else
           let first = hd fs; lst = last fs; active = activeElement (doc w)
           in if shiftKey \<and> active = Some first then (focus lst w, True)
              else if \<not> shiftKey \<and> active = Some lst then (focus first w, True)
              else (w, False))"

text \<open>The \<^verbatim>\<open>keydown\<close> listener on the drawer.\<close>

definition drawer_keydown :: "string \<Rightarrow> doc_query \<Rightarrow> bool \<Rightarrow> world \<Rightarrow> world \<times> bool" where
  "drawer_keydown k q shiftKey w =
     (if k = ''Tab'' \<and> isOpen (ctl w) then handleTabKey q shiftKey w else (w, False))"

text \<open>The \<^verbatim>\<open>keydown\<close> listener on the document.\<close>

definition document_keydown :: "string \<Rightarrow> doc_query \<Rightarrow> world \<Rightarrow> world" where
  "document_keydown k q w =
     (if k = ''Escape'' \<and> isOpen (ctl w) then close_drawer q w else w)"

text \<open>
  The browser's own answer to a Tab key that no handler prevented, on a drawer whose
  focusable elements are visited in the order of the list: the focus moves to the next
  element (the previous one with Shift), and leaves the drawer at either end.
\<close>

fun next_after :: "elem \<Rightarrow> elem list \<Rightarrow> elem option" where
  "next_after a [] = None"
| "next_after a [x] = None"
| "next_after a (x # y # ys) = (if x = a then Some y else next_after a (y # ys))"

definition default_tab :: "elem list \<Rightarrow> bool \<Rightarrow> elem option \<Rightarrow> elem option" where
  "default_tab fs shiftKey active =
     (case active of
        None \<Rightarrow> None
      | Some a \<Rightarrow> if shiftKey then next_after a (rev fs) else next_after a fs)"

text \<open>One press of Tab inside the drawer: the listener, then the browser.\<close>

definition press_tab :: "doc_query \<Rightarrow> bool \<Rightarrow> world \<Rightarrow> world" where
  "press_tab q shiftKey w =
     (let (w1, prevented) = drawer_keydown ''Tab'' q shiftKey w
      in if prevented then w1
         else w1\<lparr>doc := (doc w1)\<lparr>activeElement :=
                   default_tab (focusable q) shiftKey (activeElement (doc w1))\<rparr>\<rparr>)"

subsection \<open>Construction\<close>

text \<open>
  \<^verbatim>\<open>new CartDrawer()\<close> on a page: \<open>found\<close> says which elements the page has; the
  flags start cleared, and \<^verbatim>\<open>init\<close> sends the first \<^verbatim>\<open>fetchCart\<close>.
\<close>

definition CartDrawer :: "controller \<Rightarrow> page \<Rightarrow> world" where
  "CartDrawer found pg =
     fetchCart_request
       \<lparr>ctl = found\<lparr>isOpen := False, isUpdating := False, lastActiveElement := None,
                     scrollPosition := 0\<rparr>,
        doc = pg, requests = [], events = [], console = []\<rparr>"

text \<open>A page with the whole markup contract and two badges, used in the scenarios.\<close>

definition full_markup :: controller where
  "full_markup =
     \<lparr>drawer = True, overlay = True, itemsContainer = True, subtotalElement = True,
      emptyMessage = True, cartContent = True, isOpen = False, isUpdating = False,
      lastActiveElement = None, scrollPosition = 0\<rparr>"

definition shop_page :: page where
  "shop_page =
     \<lparr>drawer_data_open = None, drawer_aria_hidden = Some ''true'', drawer_loading = False,
      overlay_visible = False, body_data_open = None, body_position = '''',
      body_top = '''', body_width = '''', scrollY = 120, activeElement = Some (Node 7),
      badges = [(''0'', ''none''), (''0'', ''none'')], subtotal_text = ''$0.00'',
      empty_display = '''', content_display = ''none'', items_html = Template_markup,
      toasts = []\<rparr>"

definition shop :: world where
  "shop = CartDrawer full_markup shop_page"

definition shop_query :: doc_query where
  "shop_query =
     \<lparr>focusable = [Node 1, Node 2, Node 3], contains = (\<lambda>e. True),
      cart_toggle = Some (Node 7)\<rparr>"

definition cart_of_two :: cart where
  "cart_of_two =
     \<lparr>item_count = 2, total_price = 4000,
      items = [\<lparr>key = ''abc123'', variant_id = 40912345, quantity = 2,
                title = ''Beard Oil - 30ml'', product_title = ''Beard Oil'',
                variant_title = Some ''30ml'', final_line_price = 4000,
                image_url = None, url = ''/products/beard-oil''\<rparr>]\<rparr>"

subsection \<open>Vocabulary of the properties\<close>

text \<open>
  A failing response: the request was rejected before any response, or the response has
  a non-success status.
\<close>

definition failing :: "'a response \<Rightarrow> bool" where
  "failing r = (case r of Rejected m \<Rightarrow> True | Response ok b \<Rightarrow> \<not> ok)"

text \<open>
  The follow-up fetch of the cart gives no cart: it failed, or its body could not be
  parsed.
\<close>

definition fetch_failed :: "cart response \<Rightarrow> bool" where
  "fetch_failed r =
     (case r of
        Rejected m \<Rightarrow> True
      | Response ok b \<Rightarrow>
          (if ok then (case b of Unparsable m \<Rightarrow> True | Parsed c \<Rightarrow> False) else True))"

text \<open>
  The state \<open>w'\<close> is \<open>w\<close> after one request \<open>rq\<close> that only left a toast with the
  message \<open>m\<close>: the controller's fields are the same, the toast is added and the loading
  marker of the drawer is off, every other part of the document is the same, and no
  event was dispatched.
\<close>

definition only_toast_added :: "string \<Rightarrow> request \<Rightarrow> world \<Rightarrow> world \<Rightarrow> bool" where
  "only_toast_added m rq w w' =
     (ctl w' = ctl w
      \<and> toasts (doc w') = toasts (doc w) @ [m]
      \<and> drawer_loading (doc w') = (\<not> drawer (ctl w) \<and> drawer_loading (doc w))
      \<and> (doc w')\<lparr>toasts := toasts (doc w), drawer_loading := drawer_loading (doc w)\<rparr> = doc w
      \<and> events w' = events w
      \<and> requests w' = requests w @ [rq])"

section \<open>Properties\<close>

subsection \<open>Rounding to a double\<close>

text \<open>The exponent is a lower bound, and sharp.\<close>

lemma pow2_nonneg: "0 \<le> e \<Longrightarrow> (2::rat) powi e = 2 ^ nat e"
  by (simp add: power_int_def)

lemma pow2_neg: "(2::rat) powi (- int j) = 1 / 2 ^ j"
  by (simp add: power_int_minus field_simps)

lemma binary_exponent_le:
  assumes "0 < a"
  shows "2 powi (binary_exponent a) \<le> a"
proof (cases "1 \<le> a")
  case True
  define n where "n = nat \<lfloor>a\<rfloor>"
  have n: "0 < n" using True by (simp add: n_def)
  have f: "0 < floorlog 2 n" using n by (simp add: floorlog_def)
  have h: "(2::nat) ^ (floorlog 2 n - 1) \<le> n" using floorlog_bounds [of n 2] n by simp
  have "(2::rat) ^ (floorlog 2 n - 1) = of_nat (2 ^ (floorlog 2 n - 1))" by simp
  also have "\<dots> \<le> of_nat n" using h by (rule of_nat_mono)
  also have "\<dots> \<le> a" using True by (simp add: n_def)
  finally have "(2::rat) ^ (floorlog 2 n - 1) \<le> a" .
  moreover have "binary_exponent a = int (floorlog 2 n - 1)"
    using True f by (simp add: binary_exponent_def n_def)
  ultimately show ?thesis by simp
next
  case False
  define n where "n = nat \<lceil>1 / a\<rceil>"
  have "1 < 1 / a" using False assms by simp
  then have "1 < \<lceil>1 / a\<rceil>" by linarith
  then have n: "1 < n" by (simp add: n_def)
  have "n - 1 < 2 ^ floorlog 2 (n - 1)" using floorlog_bounds [of "n - 1" 2] n by simp
  then have h: "n \<le> 2 ^ floorlog 2 (n - 1)" by simp
  have "1 / a \<le> of_int \<lceil>1 / a\<rceil>" by (rule le_of_int_ceiling)
  also have "\<dots> = of_nat n" using n by (simp add: n_def)
  also have "\<dots> \<le> of_nat (2 ^ floorlog 2 (n - 1))" using h by (rule of_nat_mono)
  also have "\<dots> = 2 ^ floorlog 2 (n - 1)" by simp
  finally have "1 / a \<le> 2 ^ floorlog 2 (n - 1)" .
  then have "1 / 2 ^ floorlog 2 (n - 1) \<le> a"
    using assms by (simp add: field_simps)
  moreover have "binary_exponent a = - int (floorlog 2 (n - 1))"
    using False by (simp add: binary_exponent_def n_def)
  ultimately show ?thesis by (simp add: pow2_neg)
qed

lemma binary_exponent_less:
  assumes "0 < a" and "a < 2 ^ N"
  shows "binary_exponent a < int N"
proof (rule ccontr)
  assume "\<not> binary_exponent a < int N"
  then have le: "int N \<le> binary_exponent a" by simp
  then have "(2::rat) powi int N \<le> 2 powi binary_exponent a"
    by (intro power_int_increasing) simp_all
  then have "(2::rat) ^ N \<le> a" using binary_exponent_le [OF assms(1)] by simp
  with assms(2) show False by simp
qed

lemma round_half_even_of_int: "round_half_even (of_int k) = k"
  by (simp add: round_half_even_def)

lemma round_half_even_close: "\<bar>of_int (round_half_even z) - z\<bar> \<le> 1 / 2"
proof -
  have "of_int \<lfloor>z\<rfloor> \<le> z" "z < of_int \<lfloor>z\<rfloor> + 1" by linarith+
  then show ?thesis by (auto simp: round_half_even_def Let_def)
qed

lemma binary_exponent_upper:
  assumes "0 < a"
  shows "a < 2 powi (binary_exponent a + 1)"
proof (cases "1 \<le> a")
  case True
  define n where "n = nat \<lfloor>a\<rfloor>"
  have n: "0 < n" using True by (simp add: n_def)
  have "n < 2 ^ floorlog 2 n" using floorlog_bounds [of n 2] n by simp
  then have h: "n + 1 \<le> 2 ^ floorlog 2 n" by simp
  have "a < of_int \<lfloor>a\<rfloor> + 1" by linarith
  also have "\<dots> = of_nat (n + 1)" using True by (simp add: n_def)
  also have "\<dots> \<le> of_nat (2 ^ floorlog 2 n)" using h by (rule of_nat_mono)
  also have "\<dots> = 2 ^ floorlog 2 n" by simp
  finally have "a < 2 ^ floorlog 2 n" .
  moreover have "binary_exponent a + 1 = int (floorlog 2 n)"
    using True by (simp add: binary_exponent_def n_def)
  ultimately show ?thesis by simp
next
  case False
  define n where "n = nat \<lceil>1 / a\<rceil>"
  define k where "k = floorlog 2 (n - 1)"
  have "1 < 1 / a" using False assms by simp
  then have c: "1 < \<lceil>1 / a\<rceil>" by linarith
  then have n: "1 < n" by (simp add: n_def)
  have k: "0 < k" using n by (simp add: k_def floorlog_def)
  have h: "2 ^ (k - 1) \<le> n - 1" using floorlog_bounds [of "n - 1" 2] n by (simp add: k_def)
  have "(2::rat) ^ (k - 1) = of_nat (2 ^ (k - 1))" by simp
  also have "\<dots> \<le> of_nat (n - 1)" using h by (rule of_nat_mono)
  also have "\<dots> = of_nat n - 1" using n by (simp add: of_nat_diff)
  also have "\<dots> = of_int \<lceil>1 / a\<rceil> - 1" using c by (simp add: n_def)
  also have "\<dots> < 1 / a" by linarith
  finally have "(2::rat) ^ (k - 1) < 1 / a" .
  then have "a < 1 / 2 ^ (k - 1)" using assms by (simp add: field_simps)
  moreover have "binary_exponent a + 1 = - int (k - 1)"
    using False k by (simp add: binary_exponent_def n_def k_def)
  ultimately show ?thesis by (simp add: pow2_neg)
qed

lemma binary_exponent_eq:
  assumes "2 ^ N \<le> a" and "a < 2 ^ Suc N"
  shows "binary_exponent a = int N"
proof -
  have pos: "0 < a"
  proof -
    have "(0::rat) < 2 ^ N" by simp
    with assms(1) show ?thesis by linarith
  qed
  have "binary_exponent a < int (Suc N)" using binary_exponent_less [OF pos assms(2)] .
  moreover have "int N \<le> binary_exponent a"
  proof (rule ccontr)
    assume "\<not> int N \<le> binary_exponent a"
    then have "binary_exponent a + 1 \<le> int N" by simp
    then have "(2::rat) powi (binary_exponent a + 1) \<le> 2 powi int N"
      by (intro power_int_increasing) simp_all
    then have "a < 2 ^ N" using binary_exponent_upper [OF pos] by simp
    with assms(1) show False by simp
  qed
  ultimately show ?thesis by simp
qed

text \<open>Rounding to an integer.\<close>

lemma round_half_even_eq:
  assumes "\<bar>of_int k - z\<bar> < 1 / 2"
  shows "round_half_even z = k"
proof -
  have a1: "of_int k - z < 1 / 2" and a2: "z - of_int k < 1 / 2" using assms by linarith+
  have "\<lfloor>z\<rfloor> = k \<or> \<lfloor>z\<rfloor> = k - 1" using assms by linarith
  then show ?thesis
  proof
    assume f: "\<lfloor>z\<rfloor> = k"
    then show ?thesis using a2 by (simp add: round_half_even_def)
  next
    assume f: "\<lfloor>z\<rfloor> = k - 1"
    have "1 / 2 < z - of_int (k - 1)" using a1 by simp
    then show ?thesis by (simp add: round_half_even_def f)
  qed
qed

text \<open>
  The spacing of the doubles around a value below \<open>2 ^ N\<close> is at most
  \<open>2 ^ (N - 53)\<close>; an integer below \<open>2 ^ 53\<close> is a double; a value below \<open>2 ^ 46\<close>
  is rounded by at most \<open>1 / 256\<close>; and a double is recognised by its exponent and
  its significand.
\<close>

lemma quantum:
  assumes "0 < a" and "a < 2 ^ N" and "N \<le> 53"
  shows "\<exists>j. 53 - N \<le> j \<and> 2 powi (max (binary_exponent a) (- 1022) - 52) = (1 / 2 ^ j :: rat)"
proof -
  define e where "e = max (binary_exponent a) (- 1022)"
  have "binary_exponent a < int N" using binary_exponent_less [OF assms(1,2)] .
  then have e: "e \<le> int N - 1" using assms(3) by (simp add: e_def)
  define j where "j = nat (52 - e)"
  have "e - 52 = - int j" using e assms(3) by (simp add: j_def)
  then have "(2::rat) powi (e - 52) = 1 / 2 ^ j" by (simp add: pow2_neg)
  moreover have "53 - N \<le> j" using e assms(3) by (simp add: j_def)
  ultimately show ?thesis unfolding e_def by blast
qed

lemma round_double_of_int:
  assumes "\<bar>c\<bar> < 2 ^ 53"
  shows "round_double (of_int c) = Finite (of_int c)"
proof (cases "c = 0")
  case True
  then show ?thesis by (simp add: round_double_def)
next
  case False
  define a :: rat where "a = \<bar>of_int c\<bar>"
  have a: "a = of_int \<bar>c\<bar>" by (simp add: a_def)
  have pos: "0 < a" using False by (simp add: a_def)
  have "rat_of_int \<bar>c\<bar> < of_int (2 ^ 53)" using assms by (simp only: of_int_less_iff)
  then have lt: "a < 2 ^ 53" by (simp add: a)
  obtain j where q: "2 powi (max (binary_exponent a) (- 1022) - 52) = (1 / 2 ^ j :: rat)"
    using quantum [OF pos lt] by auto
  have "a / (1 / 2 ^ j) = of_int (\<bar>c\<bar> * 2 ^ j)" by (simp add: a)
  then have r: "round_half_even (a / (1 / 2 ^ j)) = \<bar>c\<bar> * 2 ^ j"
    by (simp only: round_half_even_of_int)
  have m: "(1 / 2 ^ j) * rat_of_int (\<bar>c\<bar> * 2 ^ j) = a" by (simp add: a)
  have "a < 2 ^ 1024"
  proof -
    have "(2::rat) ^ 53 \<le> 2 ^ 1024" by (rule power_increasing) simp_all
    with lt show ?thesis by simp
  qed
  then have no: "\<not> 2 ^ 1024 \<le> a" by simp
  have "round_double (of_int c) = Finite (if rat_of_int c < 0 then - a else a)"
    using False no unfolding round_double_def Let_def a_def [symmetric] q r m by simp
  then show ?thesis by (simp add: a_def)
qed

lemma round_double_close:
  assumes "x \<noteq> 0" and "\<bar>x\<bar> < 2 ^ 46"
  shows "\<exists>m. round_double x = Finite (if x < 0 then - m else m) \<and> \<bar>m - \<bar>x\<bar>\<bar> \<le> 1 / 256"
proof -
  define a where "a = \<bar>x\<bar>"
  have pos: "0 < a" using assms(1) by (simp add: a_def)
  have lt: "a < 2 ^ 46" using assms(2) by (simp add: a_def)
  obtain j where j: "7 \<le> j"
    and q: "2 powi (max (binary_exponent a) (- 1022) - 52) = (1 / 2 ^ j :: rat)"
    using quantum [OF pos lt] by auto
  define m where "m = (1 / 2 ^ j) * rat_of_int (round_half_even (a / (1 / 2 ^ j)))"
  have "(2::rat) ^ 7 \<le> 2 ^ j" using j by (intro power_increasing) simp_all
  then have qs: "(1 / 2 ^ j :: rat) \<le> 1 / 128" by (simp add: field_simps)
  have "\<bar>m - a\<bar> = (1 / 2 ^ j) * \<bar>rat_of_int (round_half_even (a / (1 / 2 ^ j))) - a / (1 / 2 ^ j)\<bar>"
    by (simp add: m_def abs_mult field_simps flip: abs_mult)
  also have "\<dots> \<le> (1 / 2 ^ j) * (1 / 2)"
    by (intro mult_left_mono round_half_even_close) simp
  also have "\<dots> \<le> (1 / 128) * (1 / 2)" using qs by (intro mult_right_mono) simp_all
  finally have close: "\<bar>m - a\<bar> \<le> 1 / 256" by simp
  have "m < 2 ^ 46 + 1" using close lt by linarith
  moreover have "(2::rat) ^ 46 + 1 \<le> 2 ^ 1024"
  proof -
    have "(2::rat) ^ 47 \<le> 2 ^ 1024" by (rule power_increasing) simp_all
    then show ?thesis by simp
  qed
  ultimately have no: "\<not> 2 ^ 1024 \<le> m" by simp
  have "round_double x = Finite (if x < 0 then - m else m)"
    using assms(1) no unfolding round_double_def Let_def a_def [symmetric] q m_def [symmetric]
    by simp
  with close show ?thesis unfolding a_def by blast
qed

lemma round_double_eqI:
  assumes "2 ^ N \<le> a" and "a < 2 ^ Suc N" and "N \<le> 1000"
    and "q = 2 powi (int N - 52)" and "\<bar>of_int k - a / q\<bar> < 1 / 2"
  shows "round_double a = Finite (q * of_int k)"
proof -
  have pos: "0 < a"
  proof -
    have "(0::rat) < 2 ^ N" by simp
    with assms(1) show ?thesis by linarith
  qed
  have e: "max (binary_exponent a) (- 1022) = int N"
    using binary_exponent_eq [OF assms(1,2)] by simp
  have qpos: "0 < q" by (simp add: assms(4))
  have r: "round_half_even (a / q) = k" using assms(5) by (rule round_half_even_eq)
  have "\<bar>q * of_int k - a\<bar> = q * \<bar>of_int k - a / q\<bar>"
    using qpos by (simp add: abs_mult field_simps flip: abs_mult)
  also have "\<dots> < q * (1 / 2)" using assms(5) qpos by (intro mult_strict_left_mono)
  finally have close: "\<bar>q * of_int k - a\<bar> < q / 2" by simp
  have "q \<le> 2 powi int N" unfolding assms(4) by (intro power_int_increasing) simp_all
  then have "q \<le> 2 ^ N" by simp
  then have "q * of_int k < 2 ^ Suc N + 2 ^ N" using close assms(2) by linarith
  also have "\<dots> \<le> 2 ^ Suc (Suc N)" by simp
  also have "\<dots> \<le> (2::rat) ^ 1024" using assms(3) by (intro power_increasing) simp_all
  finally have no: "\<not> 2 ^ 1024 \<le> q * of_int k" by simp
  have abs: "\<bar>a\<bar> = a" and nz: "a \<noteq> 0" and nn: "\<not> a < 0" using pos by simp_all
  show ?thesis
    unfolding round_double_def Let_def abs e assms(4) [symmetric] r
    using nz nn no by (simp only: if_False)
qed

lemma half_ulp_above_2_46:
  "round_double (7036874417766401 / 100) = Finite (4503599627370497 / 64)"
proof -
  have "round_double (7036874417766401 / 100) = Finite ((1 / 64) * of_int 4503599627370497)"
    by (rule round_double_eqI [where N = 46]) simp_all
  then show ?thesis by simp
qed

subsection \<open>Money formatting\<close>

text \<open>The digits \<open>show_nat\<close> writes read back as the number.\<close>

lemma dec_val_snoc: "dec_val (ds @ [c]) = 10 * dec_val ds + digit_val c"
  by (simp add: dec_val_def)

lemma digit_val_digit_char: "d < 10 \<Longrightarrow> digit_val (digit_char d) = d"
proof -
  assume "d < 10"
  then have "d \<in> {0, 1, 2, 3, 4, 5, 6, 7, 8, 9}" by auto
  then show ?thesis by (auto simp: digit_val_def digit_char_def)
qed

lemma dec_val_show_nat: "dec_val (show_nat n) = n"
proof (induction n rule: show_nat.induct)
  case (1 n)
  show ?case
  proof (cases "n < 10")
    case True
    then show ?thesis
      using digit_val_digit_char [of n] by (simp add: show_nat.simps [of n] dec_val_def)
  next
    case False
    then show ?thesis
      using 1 digit_val_digit_char [of "n mod 10"]
      by (simp add: show_nat.simps [of n] dec_val_snoc)
  qed
qed

text \<open>
  Below \<open>100 * 2 ^ 46\<close> minor units the division by 100 is off by less than half a
  cent, so \<^verbatim>\<open>toFixed(2)\<close> writes the digits of the exact quotient.
\<close>

lemma formatMoney_exact:
  assumes "\<bar>c\<bar> < 7036874417766400"
  shows "formatMoney c =
     ''$'' @ (if c < 0 then ''-'' else '''') @ show_nat (nat \<bar>c\<bar> div 100) @ ''.'' @
       [digit_char (nat \<bar>c\<bar> mod 100 div 10), digit_char (nat \<bar>c\<bar> mod 10)]"
proof (cases "c = 0")
  case True
  then show ?thesis
    by (simp add: formatMoney_def divide_by_100_def round_double_def toFixed2_def)
next
  case False
  have "\<bar>c\<bar> < 2 ^ 53" using assms by simp
  then have i: "round_double (of_int c) = Finite (of_int c)" by (rule round_double_of_int)
  define x where "x = rat_of_int c / 100"
  have x0: "x \<noteq> 0" using False by (simp add: x_def)
  have ax: "\<bar>x\<bar> = rat_of_int \<bar>c\<bar> / 100" by (simp add: x_def)
  have "rat_of_int \<bar>c\<bar> < of_int 7036874417766400" using assms by (simp only: of_int_less_iff)
  then have "\<bar>x\<bar> < 2 ^ 46" by (simp add: ax)
  from round_double_close [OF x0 this] obtain m where
    r: "round_double x = Finite (if x < 0 then - m else m)" and close: "\<bar>m - \<bar>x\<bar>\<bar> \<le> 1 / 256"
    by blast
  have "1 \<le> \<bar>c\<bar>" using False by simp
  then have "rat_of_int 1 \<le> of_int \<bar>c\<bar>" by (simp only: of_int_le_iff)
  then have lo: "1 / 100 \<le> \<bar>x\<bar>" by (simp add: ax)
  have mpos: "0 < m" using close lo by linarith
  have sign: "(x < 0) = (c < 0)" by (simp add: x_def)
  have mag: "\<bar>if x < 0 then - m else m\<bar> = m" using mpos by simp
  have neg: "((if x < 0 then - m else m) < 0) = (c < 0)" using mpos sign by simp
  have "m < 2 ^ 46 + 1" using close \<open>\<bar>x\<bar> < 2 ^ 46\<close> by linarith
  then have small: "\<not> 10 ^ 21 \<le> m" by simp
  have fl: "\<lfloor>m * 100 + 1 / 2\<rfloor> = \<bar>c\<bar>"
  proof (rule floor_unique)
    show "rat_of_int \<bar>c\<bar> \<le> m * 100 + 1 / 2" using close ax by linarith
    show "m * 100 + 1 / 2 < rat_of_int \<bar>c\<bar> + 1" using close ax by linarith
  qed
  show ?thesis
    unfolding formatMoney_def i divide_by_100_def double.case x_def [symmetric] r toFixed2_def
      Let_def mag neg fl
    using small by simp
qed

text \<open>Three evaluations beyond that range, and the text of a small count.\<close>

lemma shortest_digits_first:
  assumes "nearest_digits a (10 ^ (n - 1)) = Some s" and "0 < n"
  shows "shortest_digits a n = Some (1, s)"
proof -
  have "[1..<Suc (min n 17)] = 1 # [Suc 1..<Suc (min n 17)]"
    using assms(2) by (intro upt_conv_Cons) simp
  then show ?thesis
    unfolding shortest_digits_def using assms(1) by (simp add: List.map_filter_simps)
qed

lemma round_double_small_nat: "round_double 2 = Finite 2" "round_double 3 = Finite 3"
  using round_double_of_int [of 2] round_double_of_int [of 3] by simp_all

lemma number_text_2: "number_text 2 = ''2''"
proof -
  have n: "floorlog 10 2 = 1" by (simp add: compute_floorlog)
  have "nearest_digits 2 (10 ^ (1 - 1)) = Some 2"
    by (simp add: nearest_digits_def reads_back_def round_double_small_nat)
  then have "shortest_digits 2 1 = Some (1, 2)" by (rule shortest_digits_first) simp
  then have "toString_integral 2 = ''2''"
    by (simp add: toString_integral_def Let_def n show_nat.simps digit_char_def)
  then show ?thesis
    using round_double_of_int [of 2] by (simp add: number_text_def)
qed

lemma round_double_1e24:
  "round_double 1000000000000000000000000 = Finite 999999999999999983222784"
proof -
  have "round_double 1000000000000000000000000 = Finite (134217728 * of_int 7450580596923828)"
    by (rule round_double_eqI [where N = 79]) simp_all
  then show ?thesis by simp
qed

lemma round_double_1e22:
  "round_double (999999999999999983222784 / 100) = Finite 10000000000000000000000"
  "round_double 10000000000000000000000 = Finite 10000000000000000000000"
proof -
  have "round_double (999999999999999983222784 / 100)
      = Finite (2097152 * of_int 4768371582031250)"
    by (rule round_double_eqI [where N = 73]) simp_all
  then show "round_double (999999999999999983222784 / 100) = Finite 10000000000000000000000"
    by simp
  have "round_double 10000000000000000000000 = Finite (2097152 * of_int 4768371582031250)"
    by (rule round_double_eqI [where N = 73]) simp_all
  then show "round_double 10000000000000000000000 = Finite 10000000000000000000000" by simp
qed

lemma round_double_2e22:
  "round_double 20000000000000000000000 = Finite 20000000000000000000000"
proof -
  have "round_double 20000000000000000000000 = Finite (4194304 * of_int 4768371582031250)"
    by (rule round_double_eqI [where N = 74]) simp_all
  then show ?thesis by simp
qed

lemma toString_1e22: "toString_integral 10000000000000000000000 = ''1e+22''"
proof -
  have p: "(1::nat) * 10 ^ 22 = 10000000000000000000000" by simp
  have one: "floorlog 10 1 = 1" by (simp add: compute_floorlog)
  have "floorlog 10 (1 * 10 ^ 22) = floorlog 10 1 + 22" by (rule floorlog_power) simp_all
  then have n': "floorlog 10 10000000000000000000000 = 23" unfolding p one by simp
  have "nearest_digits 10000000000000000000000 (10 ^ (23 - 1)) = Some 1"
    by (simp add: nearest_digits_def reads_back_def round_double_1e22 round_double_2e22)
  then have "shortest_digits 10000000000000000000000 23 = Some (1, 1)"
    by (rule shortest_digits_first) simp
  then show ?thesis
    by (simp add: toString_integral_def Let_def n' show_nat.simps digit_char_def)
qed

lemma formatMoney_1e24: "formatMoney 1000000000000000000000000 = ''$1e+22''"
proof -
  have i: "round_double (rat_of_int 1000000000000000000000000) = Finite 999999999999999983222784"
    using round_double_1e24 by simp
  have "formatMoney 1000000000000000000000000
      = ''$'' @ toFixed2 (Finite 10000000000000000000000)"
    by (simp only: formatMoney_def i divide_by_100_def double.case round_double_1e22)
  also have "toFixed2 (Finite 10000000000000000000000) = ''1e+22''"
    by (simp add: toFixed2_def toString_1e22)
  finally show ?thesis by simp
qed

lemma floor_numeral_quotient:
  "\<lfloor>(numeral a :: rat) / numeral b\<rfloor> = numeral a div numeral b"
  by (metis floor_divide_of_int_eq of_int_numeral)

lemma formatMoney_above_bound: "formatMoney 7036874417766401 = ''$70368744177664.02''"
proof -
  have "round_double (of_int 7036874417766401) = Finite (of_int 7036874417766401)"
    by (rule round_double_of_int) simp
  then have "formatMoney 7036874417766401
      = ''$'' @ toFixed2 (round_double (rat_of_int 7036874417766401 / 100))"
    by (simp only: formatMoney_def divide_by_100_def double.case)
  also have "rat_of_int 7036874417766401 / 100 = 7036874417766401 / 100" by simp
  also have "toFixed2 (round_double (7036874417766401 / 100)) = ''70368744177664.02''"
  proof -
    have n: "nat \<lfloor>\<bar>4503599627370497 / 64 :: rat\<bar> * 100 + 1 / 2\<rfloor> = 7036874417766402"
      by (simp add: floor_numeral_quotient)
    have s: "show_nat 70368744177664 = ''70368744177664''"
      by (simp add: show_nat.simps digit_char_def)
    show ?thesis
      unfolding half_ulp_above_2_46 toFixed2_def double.case Let_def n
      by (simp add: s digit_char_def)
  qed
  finally show ?thesis by simp
qed

text \<open>
  Claim C8, as amended. For an integer argument (minor units) below \<open>100 * 2 ^ 46\<close> in
  absolute value, \<^verbatim>\<open>formatMoney\<close> writes the argument divided by 100 with a
  \<^verbatim>\<open>$\<close> in front and exactly two digits after the point: the sign, the whole units,
  a point, the tens and the units of the cents. In particular \<^verbatim>\<open>formatMoney(1050)\<close>
  is \<^verbatim>\<open>$10.50\<close> and \<^verbatim>\<open>formatMoney(0)\<close> is \<^verbatim>\<open>$0.00\<close>.
\<close>

theorem formatMoney_two_decimals:
  "(\<bar>c\<bar> < 7036874417766400 \<longrightarrow>
      formatMoney c =
        ''$'' @ (if c < 0 then ''-'' else '''') @ show_nat (nat \<bar>c\<bar> div 100) @ ''.'' @
          [digit_char (nat \<bar>c\<bar> mod 100 div 10), digit_char (nat \<bar>c\<bar> mod 10)])
   \<and> formatMoney 1050 = ''$10.50''
   \<and> formatMoney 0 = ''$0.00''"
proof -
  have "formatMoney 1050 = ''$10.50''"
    using formatMoney_exact [of 1050] by (simp add: show_nat.simps digit_char_def)
  moreover have "formatMoney 0 = ''$0.00''"
    using formatMoney_exact [of 0] by (simp add: show_nat.simps digit_char_def)
  ultimately show ?thesis using formatMoney_exact [of c] by blast
qed

theorem formatMoney_two_decimals_witness:
  "\<bar>- 1999 :: int\<bar> < 7036874417766400 \<and> formatMoney (- 1999) = ''$-19.99''"
  using formatMoney_two_decimals [of "- 1999"] by (simp add: show_nat.simps digit_char_def)

text \<open>
  The claim C8 as stated is about every integer argument. At \<open>10 ^ 24\<close> minor units the
  quotient is the double \<open>10 ^ 22\<close>, which \<^verbatim>\<open>toFixed\<close> writes in exponent notation:
  no digits after a point. At \<open>100 * 2 ^ 46 + 1\<close> the doubles are \<open>1 / 64\<close> apart and
  the quotient is rounded up, so the cents read \<^verbatim>\<open>02\<close> where the argument ends in
  \<^verbatim>\<open>01\<close>.
\<close>

theorem formatMoney_beyond_range:
  "formatMoney 1000000000000000000000000 = ''$1e+22''
   \<and> formatMoney 7036874417766401 = ''$70368744177664.02''"
  using formatMoney_1e24 formatMoney_above_bound by simp

subsection \<open>Removing a line\<close>

text \<open>
  Claim C9. For every line key, \<^verbatim>\<open>removeItem(key)\<close> is \<^verbatim>\<open>updateItem(key, 0)\<close>:
  on every state and every response of the cart API both leave the same state (the same
  requests, rendering, notifications and toasts) and resolve with the same result. The
  remove control of a line goes through \<^verbatim>\<open>removeItem\<close>, so it does the same.
\<close>

theorem removeItem_delegates:
  "removeItem k r w = updateItem k (Number 0) r w
   \<and> handleRemoveItem k r w = fst (updateItem k (Number 0) r w)"
  by (simp add: removeItem_def handleRemoveItem_def)

subsection \<open>Opening and closing\<close>

lemma open_drawer_ctl:
  "drawer (ctl w) \<Longrightarrow>
     isOpen (ctl (open_drawer q w)) \<and> drawer (ctl (open_drawer q w))
     \<and> drawer_data_open (doc (open_drawer q w)) = Some ''true''"
  by (simp add: open_drawer_def Let_def focus_def lockScroll_def)

lemma close_drawer_ctl:
  "drawer (ctl w) \<Longrightarrow>
     \<not> isOpen (ctl (close_drawer q w)) \<and> drawer (ctl (close_drawer q w))
     \<and> drawer_data_open (doc (close_drawer q w)) = Some ''false''"
  by (simp add: close_drawer_def Let_def focus_def unlockScroll_def split: option.splits)

lemma call_drawer_ctl:
  "drawer (ctl w) \<Longrightarrow>
     isOpen (ctl (call_drawer (c, q) w)) = (c = Open) \<and> drawer (ctl (call_drawer (c, q) w))
     \<and> drawer_data_open (doc (call_drawer (c, q) w))
         = Some (if c = Open then ''true'' else ''false'')"
  using open_drawer_ctl [of w q] close_drawer_ctl [of w q] by (cases c) simp_all

lemma run_calls_last:
  "drawer (ctl w) \<Longrightarrow> cs \<noteq> [] \<Longrightarrow>
     isOpen (ctl (run_calls cs w)) = (fst (last cs) = Open)
     \<and> drawer_data_open (doc (run_calls cs w))
         = Some (if fst (last cs) = Open then ''true'' else ''false'')"
proof (induction cs arbitrary: w)
  case Nil
  then show ?case by simp
next
  case (Cons c cs)
  obtain k q where c: "c = (k, q)" by (cases c)
  show ?case
  proof (cases "cs = []")
    case True
    then show ?thesis using call_drawer_ctl [OF Cons.prems(1), of k q] c by simp
  next
    case False
    have "drawer (ctl (call_drawer c w))"
      using call_drawer_ctl [OF Cons.prems(1), of k q] c by simp
    from Cons.IH [OF this False] False show ?thesis by simp
  qed
qed

text \<open>
  Claim C7. On a controller whose drawer element exists, after any non-empty sequence of
  calls of \<^verbatim>\<open>open()\<close> and \<^verbatim>\<open>close()\<close> the open flag (and the drawer's
  \<^verbatim>\<open>data-drawer-open\<close> attribute) is what the last call asked for, whatever the page
  looked like at each call. So \<^verbatim>\<open>open()\<close> twice leaves the drawer open and
  \<^verbatim>\<open>close()\<close> twice leaves it closed. \<^verbatim>\<open>toggle()\<close> is \<^verbatim>\<open>close()\<close> on an open
  drawer and \<^verbatim>\<open>open()\<close> on a closed one, and flips the open flag.
\<close>

theorem drawer_state_follows_last_call:
  assumes "drawer (ctl w)"
  shows "(cs \<noteq> [] \<longrightarrow>
            isOpen (ctl (run_calls cs w)) = (fst (last cs) = Open)
            \<and> drawer_data_open (doc (run_calls cs w))
                = Some (if fst (last cs) = Open then ''true'' else ''false''))
         \<and> isOpen (ctl (open_drawer q2 (open_drawer q1 w)))
         \<and> \<not> isOpen (ctl (close_drawer q2 (close_drawer q1 w)))
         \<and> toggle_drawer q w = (if isOpen (ctl w) then close_drawer q w else open_drawer q w)
         \<and> isOpen (ctl (toggle_drawer q w)) = (\<not> isOpen (ctl w))"
proof -
  have 1: "cs \<noteq> [] \<longrightarrow>
            isOpen (ctl (run_calls cs w)) = (fst (last cs) = Open)
            \<and> drawer_data_open (doc (run_calls cs w))
                = Some (if fst (last cs) = Open then ''true'' else ''false'')"
    using run_calls_last [OF assms] by blast
  have 2: "isOpen (ctl (open_drawer q2 (open_drawer q1 w)))"
    using open_drawer_ctl [of "open_drawer q1 w" q2] open_drawer_ctl [OF assms, of q1] by simp
  have 3: "\<not> isOpen (ctl (close_drawer q2 (close_drawer q1 w)))"
    using close_drawer_ctl [of "close_drawer q1 w" q2] close_drawer_ctl [OF assms, of q1]
    by simp
  have 4: "toggle_drawer q w = (if isOpen (ctl w) then close_drawer q w else open_drawer q w)"
    by (simp add: toggle_drawer_def)
  have 5: "isOpen (ctl (toggle_drawer q w)) = (\<not> isOpen (ctl w))"
    using open_drawer_ctl [OF assms, of q] close_drawer_ctl [OF assms, of q]
    by (simp add: toggle_drawer_def)
  from 1 2 3 4 5 show ?thesis by blast
qed

lemma shop_ctl: "drawer (ctl shop) \<and> \<not> isOpen (ctl shop) \<and> \<not> isUpdating (ctl shop)"
  by (simp add: shop_def CartDrawer_def full_markup_def fetchCart_request_def issue_def)

theorem drawer_state_follows_last_call_witness:
  "drawer (ctl shop)
   \<and> isOpen (ctl (run_calls [(Open, shop_query), (Close, shop_query), (Open, shop_query)] shop))
   \<and> \<not> isOpen (ctl (run_calls [(Open, shop_query), (Open, shop_query), (Close, shop_query)] shop))
   \<and> isOpen (ctl (open_drawer shop_query (open_drawer shop_query shop)))
   \<and> \<not> isOpen (ctl (close_drawer shop_query (close_drawer shop_query shop)))
   \<and> isOpen (ctl (toggle_drawer shop_query shop))"
proof -
  have d: "drawer (ctl shop)" and c: "\<not> isOpen (ctl shop)"
    using shop_ctl by simp_all
  show ?thesis
    using d c
      drawer_state_follows_last_call [OF d,
        of "[(Open, shop_query), (Close, shop_query), (Open, shop_query)]"
           shop_query shop_query shop_query]
      drawer_state_follows_last_call [OF d,
        of "[(Open, shop_query), (Open, shop_query), (Close, shop_query)]"
           shop_query shop_query shop_query]
    by simp
qed

subsection \<open>The request guard\<close>

lemmas effect_defs =
  focus_def setLoading_def set_updating_def showError_def console_error_def issue_def
  dispatch_def finally_block_def

lemma finally_block_fields:
  "ctl (finally_block w) = (ctl w)\<lparr>isUpdating := False\<rparr>"
  "doc (finally_block w) =
     (if drawer (ctl w) then (doc w)\<lparr>drawer_loading := False\<rparr> else doc w)"
  "requests (finally_block w) = requests w"
  "events (finally_block w) = events w"
  "console (finally_block w) = console w"
  by (simp_all add: effect_defs)

lemma renderCart_fields:
  "ctl (renderCart c w) = ctl w"
  "requests (renderCart c w) = requests w"
  "events (renderCart c w) = events w"
  "console (renderCart c w) = console w"
  by (simp_all add: renderCart_def Let_def)

lemma renderCart_doc:
  "badges (doc (renderCart c w)) =
     map (\<lambda>_. (number_text (item_count c), if item_count c > 0 then '''' else ''none''))
       (badges (doc w))"
  "subtotal_text (doc (renderCart c w)) =
     (if subtotalElement (ctl w) then formatMoney (total_price c) else subtotal_text (doc w))"
  "items_html (doc (renderCart c w)) =
     (if itemsContainer (ctl w) then Items_markup (items c) else items_html (doc w))"
  "toasts (doc (renderCart c w)) = toasts (doc w)"
  "drawer_loading (doc (renderCart c w)) = drawer_loading (doc w)"
  by (simp_all add: renderCart_def Let_def)

lemma open_drawer_fields:
  "isUpdating (ctl (open_drawer q w)) = isUpdating (ctl w)"
  "drawer (ctl (open_drawer q w)) = drawer (ctl w)"
  "isOpen (ctl (open_drawer q w)) = (drawer (ctl w) \<or> isOpen (ctl w))"
  "requests (open_drawer q w) = requests w"
  "events (open_drawer q w) = events w"
  "console (open_drawer q w) = console w"
  "badges (doc (open_drawer q w)) = badges (doc w)"
  "subtotal_text (doc (open_drawer q w)) = subtotal_text (doc w)"
  "empty_display (doc (open_drawer q w)) = empty_display (doc w)"
  "content_display (doc (open_drawer q w)) = content_display (doc w)"
  "items_html (doc (open_drawer q w)) = items_html (doc w)"
  "toasts (doc (open_drawer q w)) = toasts (doc w)"
  by (simp_all add: open_drawer_def Let_def focus_def lockScroll_def)

lemma fetchCart_response_fields:
  "isUpdating (ctl (fst (fetchCart_response r w))) = isUpdating (ctl w)"
  "drawer (ctl (fst (fetchCart_response r w))) = drawer (ctl w)"
  "isOpen (ctl (fst (fetchCart_response r w))) = isOpen (ctl w)"
  "requests (fst (fetchCart_response r w)) = requests w"
  "events (fst (fetchCart_response r w)) = events w"
  "toasts (doc (fst (fetchCart_response r w))) = toasts (doc w)"
  by (simp_all add: fetchCart_response_def renderCart_fields renderCart_doc console_error_def
        split: response.splits body.splits)

lemma addItem_fetched_clears:
  "\<not> isUpdating (ctl (fst (addItem_fetched v n rg q w)))"
  by (simp add: addItem_fetched_def Let_def split_beta finally_block_fields)

lemma updateItem_response_clears:
  "\<not> isUpdating (ctl (fst (updateItem_response r w)))"
  by (simp add: updateItem_response_def updateItem_catch_def finally_block_fields
        split: response.splits body.splits)

lemma addItem_posted_flag:
  "(case addItem_posted rp w of
      Inl d \<Rightarrow> isUpdating (ctl (fst d)) = False
    | Inr w2 \<Rightarrow> isUpdating (ctl w2) = isUpdating (ctl w))"
  by (simp add: addItem_posted_def addItem_catch_def finally_block_fields
        fetchCart_request_def issue_def split: response.splits body.splits option.splits)

lemma pending_flag: "isUpdating (ctl (issue rq (setLoading True (set_updating True w))))"
  by (simp add: effect_defs)

lemma addItem_clears: "\<not> isUpdating (ctl (fst (addItem v n p rp rg q w))) \<or> isUpdating (ctl w)"
  using addItem_posted_flag [where rp = rp and w = "issue (POST_add v n p) (setLoading True (set_updating True w))"]
    addItem_fetched_clears
  by (auto simp: addItem_def addItem_request_def split: sum.splits)

lemma pending_is_guarded:
  "updateItem k n r (issue rq (setLoading True (set_updating True w)))
     = (issue rq (setLoading True (set_updating True w)), Undefined)"
  "addItem v n p rp rg q (issue rq (setLoading True (set_updating True w)))
     = (issue rq (setLoading True (set_updating True w)), Undefined)"
  by (simp_all add: updateItem_def updateItem_request_def addItem_def addItem_request_def
        pending_flag)

lemma updateItem_runs:
  assumes "\<not> isUpdating (ctl w)"
  shows "updateItem k n r w
           = updateItem_response r
               (issue (POST_change k n) (setLoading True (set_updating True w)))"
    and "removeItem k r w
           = updateItem_response r
               (issue (POST_change k (Number 0)) (setLoading True (set_updating True w)))"
    and "addItem v n p rp rg q w
           = (case addItem_posted rp
                     (issue (POST_add v n p) (setLoading True (set_updating True w))) of
                Inl done \<Rightarrow> done
              | Inr w2 \<Rightarrow> addItem_fetched v n rg q w2)"
  using assms
  by (simp_all add: updateItem_def updateItem_request_def removeItem_def addItem_def
        addItem_request_def)

lemma updateItem_response_requests:
  "requests (fst (updateItem_response r w)) = requests w"
  by (simp add: updateItem_response_def updateItem_catch_def finally_block_fields
        renderCart_fields effect_defs split: response.splits body.splits)

lemma addItem_fetched_requests:
  "requests (fst (addItem_fetched v n rg q w)) = requests w"
  by (simp add: addItem_fetched_def Let_def split_beta finally_block_fields dispatch_def
        open_drawer_fields fetchCart_response_fields)

lemma addItem_posted_requests:
  "(case addItem_posted rp w of
      Inl d \<Rightarrow> requests (fst d) = requests w \<and> failing rp
    | Inr w2 \<Rightarrow> requests w2 = requests w @ [GET_cart] \<and> \<not> failing rp)"
  by (simp add: addItem_posted_def addItem_catch_def finally_block_fields failing_def
        fetchCart_request_def effect_defs split: response.splits body.splits option.splits)

lemma mutating_requests:
  assumes "\<not> isUpdating (ctl w)"
  shows "requests (fst (updateItem k n r w)) = requests w @ [POST_change k n]"
    and "requests (fst (removeItem k r w)) = requests w @ [POST_change k (Number 0)]"
    and "requests (fst (addItem v n p rp rg q w))
           = requests w @ POST_add v n p # (if failing rp then [] else [GET_cart])"
proof -
  show "requests (fst (updateItem k n r w)) = requests w @ [POST_change k n]"
    unfolding updateItem_runs(1) [OF assms] updateItem_response_requests
    by (simp add: effect_defs)
  show "requests (fst (removeItem k r w)) = requests w @ [POST_change k (Number 0)]"
    unfolding updateItem_runs(2) [OF assms] updateItem_response_requests
    by (simp add: effect_defs)
  have p: "requests (issue (POST_add v n p) (setLoading True (set_updating True w)))
      = requests w @ [POST_add v n p]"
    by (simp add: effect_defs)
  show "requests (fst (addItem v n p rp rg q w))
           = requests w @ POST_add v n p # (if failing rp then [] else [GET_cart])"
    unfolding updateItem_runs(3) [OF assms]
    using addItem_posted_requests
        [where rp = rp and w = "issue (POST_add v n p) (setLoading True (set_updating True w))"]
    by (auto simp: p addItem_fetched_requests split: sum.splits)
qed

lemma flag_before_request:
  "isUpdating (ctl (setLoading True (set_updating True w)))"
  "requests (setLoading True (set_updating True w)) = requests w"
  "drawer_loading (doc (setLoading True (set_updating True w)))
     = (drawer (ctl w) \<or> drawer_loading (doc w))"
  by (simp_all add: effect_defs)

text \<open>
  Claim C1. For each mutating operation (\<^verbatim>\<open>addItem\<close>, \<^verbatim>\<open>updateItem\<close>,
  \<^verbatim>\<open>removeItem\<close>): called while the request-in-flight flag is set, it returns at once
  (with \<^verbatim>\<open>undefined\<close>) and the whole state, the request log included, is as it was.
  Called with the flag clear, it first sets the flag and the loading marker, with nothing
  sent yet, and in that state issues its POST: the operation is the continuation on the
  response, run from the state in which the flag is set and the POST is the last request
  sent. Its request log is the old one with the POST added (and the follow-up GET, for an
  \<^verbatim>\<open>addItem\<close> whose POST succeeds), and when it completes the flag is clear,
  whatever the responses were. While a request is outstanding, a further
  \<^verbatim>\<open>updateItem\<close> or \<^verbatim>\<open>addItem\<close> changes nothing and sends nothing. The last three
  lines say the same of the continuations alone, from any state they may find when the
  response arrives: the continuation of \<^verbatim>\<open>updateItem\<close> and the last one of
  \<^verbatim>\<open>addItem\<close> end with the flag clear, and the continuation on the POST of
  \<^verbatim>\<open>addItem\<close> either ends with the flag clear or leaves the flag untouched while the
  follow-up fetch is outstanding.
\<close>

theorem request_guard:
  "(isUpdating (ctl w) \<longrightarrow>
        addItem v n p rp rg q w = (w, Undefined)
      \<and> updateItem k n r w = (w, Undefined)
      \<and> removeItem k r w = (w, Undefined))
   \<and> (\<not> isUpdating (ctl w) \<longrightarrow>
        isUpdating (ctl (setLoading True (set_updating True w)))
      \<and> requests (setLoading True (set_updating True w)) = requests w
      \<and> addItem_request v n p w
          = Some (issue (POST_add v n p) (setLoading True (set_updating True w)))
      \<and> updateItem_request k n w
          = Some (issue (POST_change k n) (setLoading True (set_updating True w)))
      \<and> addItem v n p rp rg q w
          = (case addItem_posted rp
                    (issue (POST_add v n p) (setLoading True (set_updating True w))) of
               Inl done \<Rightarrow> done
             | Inr w2 \<Rightarrow> addItem_fetched v n rg q w2)
      \<and> updateItem k n r w
          = updateItem_response r
              (issue (POST_change k n) (setLoading True (set_updating True w)))
      \<and> removeItem k r w
          = updateItem_response r
              (issue (POST_change k (Number 0)) (setLoading True (set_updating True w)))
      \<and> requests (fst (addItem v n p rp rg q w))
          = requests w @ POST_add v n p # (if failing rp then [] else [GET_cart])
      \<and> requests (fst (updateItem k n r w)) = requests w @ [POST_change k n]
      \<and> requests (fst (removeItem k r w)) = requests w @ [POST_change k (Number 0)]
      \<and> \<not> isUpdating (ctl (fst (addItem v n p rp rg q w)))
      \<and> \<not> isUpdating (ctl (fst (updateItem k n r w)))
      \<and> \<not> isUpdating (ctl (fst (removeItem k r w))))
   \<and> updateItem k' n' r' (issue rq (setLoading True (set_updating True w)))
       = (issue rq (setLoading True (set_updating True w)), Undefined)
   \<and> addItem v' n' p' rp' rg' q' (issue rq (setLoading True (set_updating True w)))
       = (issue rq (setLoading True (set_updating True w)), Undefined)
   \<and> \<not> isUpdating (ctl (fst (updateItem_response r w)))
   \<and> \<not> isUpdating (ctl (fst (addItem_fetched v n rg q w)))
   \<and> (case addItem_posted rp w of
         Inl d \<Rightarrow> isUpdating (ctl (fst d)) = False
       | Inr w2 \<Rightarrow> isUpdating (ctl w2) = isUpdating (ctl w))"
proof -
  have a: "isUpdating (ctl w) \<longrightarrow>
        addItem v n p rp rg q w = (w, Undefined)
      \<and> updateItem k n r w = (w, Undefined)
      \<and> removeItem k r w = (w, Undefined)"
    by (simp add: addItem_def addItem_request_def updateItem_def updateItem_request_def
          removeItem_def)
  have b: "\<not> isUpdating (ctl w) \<longrightarrow>
        addItem_request v n p w
          = Some (issue (POST_add v n p) (setLoading True (set_updating True w)))
      \<and> updateItem_request k n w
          = Some (issue (POST_change k n) (setLoading True (set_updating True w)))"
    by (simp add: addItem_request_def updateItem_request_def)
  have c: "\<not> isUpdating (ctl w) \<longrightarrow> \<not> isUpdating (ctl (fst (addItem v n p rp rg q w)))"
    using addItem_clears [of v n p rp rg q w] by blast
  have d: "\<not> isUpdating (ctl w) \<longrightarrow>
        \<not> isUpdating (ctl (fst (updateItem k n r w)))
      \<and> \<not> isUpdating (ctl (fst (removeItem k r w)))"
    by (simp add: removeItem_def updateItem_def updateItem_request_def
          updateItem_response_clears)
  have e: "\<not> isUpdating (ctl w) \<longrightarrow>
        addItem v n p rp rg q w
          = (case addItem_posted rp
                    (issue (POST_add v n p) (setLoading True (set_updating True w))) of
               Inl done \<Rightarrow> done
             | Inr w2 \<Rightarrow> addItem_fetched v n rg q w2)
      \<and> updateItem k n r w
          = updateItem_response r
              (issue (POST_change k n) (setLoading True (set_updating True w)))
      \<and> removeItem k r w
          = updateItem_response r
              (issue (POST_change k (Number 0)) (setLoading True (set_updating True w)))"
    using updateItem_runs [where w = w] by blast
  have f: "\<not> isUpdating (ctl w) \<longrightarrow>
        requests (fst (addItem v n p rp rg q w))
          = requests w @ POST_add v n p # (if failing rp then [] else [GET_cart])
      \<and> requests (fst (updateItem k n r w)) = requests w @ [POST_change k n]
      \<and> requests (fst (removeItem k r w)) = requests w @ [POST_change k (Number 0)]"
    using mutating_requests [where w = w] by blast
  show ?thesis
    using a b c d e f flag_before_request(1,2) [where w = w]
      updateItem_response_clears [of r w] addItem_fetched_clears [of v n rg q w]
      addItem_posted_flag [where rp = rp and w = w]
      pending_is_guarded(1) [of k' n' r' rq w] pending_is_guarded(2) [of v' n' p' rp' rg' q' rq w]
    by blast
qed

theorem request_guard_witness:
  "\<not> isUpdating (ctl shop)
   \<and> isUpdating (ctl (issue (POST_change ''abc123'' (Number 2))
                        (setLoading True (set_updating True shop))))
   \<and> updateItem_request ''abc123'' (Number 2) shop
       = Some (issue (POST_change ''abc123'' (Number 2))
                 (setLoading True (set_updating True shop)))
   \<and> updateItem ''abc123'' (Number 5) (Response True (Parsed cart_of_two))
        (issue (POST_change ''abc123'' (Number 2)) (setLoading True (set_updating True shop)))
       = (issue (POST_change ''abc123'' (Number 2)) (setLoading True (set_updating True shop)),
          Undefined)
   \<and> requests (fst (updateItem ''abc123'' (Number 2) (Rejected ''Failed to fetch'') shop))
       = [GET_cart, POST_change ''abc123'' (Number 2)]
   \<and> requests (fst (removeItem ''abc123'' (Rejected ''Failed to fetch'') shop))
       = [GET_cart, POST_change ''abc123'' (Number 0)]
   \<and> requests (fst (addItem (Some ''40912345'') (Number 2) [] (Response True (Parsed None))
                       (Response True (Parsed cart_of_two)) shop_query shop))
       = [GET_cart, POST_add (Some ''40912345'') (Number 2) [], GET_cart]
   \<and> \<not> isUpdating (ctl (fst (updateItem ''abc123'' (Number 2) (Rejected ''Failed to fetch'')
                                shop)))
   \<and> \<not> isUpdating (ctl (fst (addItem (Some ''40912345'') (Number 2) []
                                (Response True (Parsed None))
                                (Response True (Parsed cart_of_two)) shop_query shop)))"
proof -
  have u: "\<not> isUpdating (ctl shop)" using shop_ctl by simp
  have p: "isUpdating (ctl (issue (POST_change ''abc123'' (Number 2))
                        (setLoading True (set_updating True shop))))"
    by (rule pending_flag)
  have r: "requests shop = [GET_cart]"
    by (simp add: shop_def CartDrawer_def fetchCart_request_def issue_def)
  have f: "\<not> failing (Response True (Parsed None) :: string option response)"
    by (simp add: failing_def)
  have A: "updateItem_request ''abc123'' (Number 2) shop
       = Some (issue (POST_change ''abc123'' (Number 2))
                 (setLoading True (set_updating True shop)))
   \<and> requests (fst (updateItem ''abc123'' (Number 2) (Rejected ''Failed to fetch'') shop))
       = requests shop @ [POST_change ''abc123'' (Number 2)]
   \<and> requests (fst (removeItem ''abc123'' (Rejected ''Failed to fetch'') shop))
       = requests shop @ [POST_change ''abc123'' (Number 0)]
   \<and> requests (fst (addItem (Some ''40912345'') (Number 2) [] (Response True (Parsed None))
                       (Response True (Parsed cart_of_two)) shop_query shop))
       = requests shop @ POST_add (Some ''40912345'') (Number 2) []
           # (if failing (Response True (Parsed None) :: string option response) then []
              else [GET_cart])
   \<and> \<not> isUpdating (ctl (fst (updateItem ''abc123'' (Number 2) (Rejected ''Failed to fetch'')
                                shop)))
   \<and> \<not> isUpdating (ctl (fst (addItem (Some ''40912345'') (Number 2) []
                                (Response True (Parsed None))
                                (Response True (Parsed cart_of_two)) shop_query shop)))"
    using u
      request_guard [where w = shop and v = "Some ''40912345''" and n = "Number 2"
        and p = "[]" and rp = "Response True (Parsed None)"
        and rg = "Response True (Parsed cart_of_two)" and q = shop_query
        and k = "''abc123''" and r = "Rejected ''Failed to fetch''"
        and k' = "''abc123''" and n' = "Number 5" and r' = "Response True (Parsed cart_of_two)"
        and rq = "POST_change ''abc123'' (Number 2)"
        and v' = "Some ''40912345''" and p' = "[]" and rp' = "Response True (Parsed None)"
        and rg' = "Response True (Parsed cart_of_two)" and q' = shop_query]
    by blast
  have B: "updateItem ''abc123'' (Number 5) (Response True (Parsed cart_of_two))
        (issue (POST_change ''abc123'' (Number 2)) (setLoading True (set_updating True shop)))
       = (issue (POST_change ''abc123'' (Number 2)) (setLoading True (set_updating True shop)),
          Undefined)"
    using p
      request_guard [where w = "issue (POST_change ''abc123'' (Number 2))
                        (setLoading True (set_updating True shop))"
        and v = "Some ''40912345''" and n = "Number 5"
        and p = "[]" and rp = "Response True (Parsed None)"
        and rg = "Response True (Parsed cart_of_two)" and q = shop_query
        and k = "''abc123''" and r = "Response True (Parsed cart_of_two)"
        and k' = "''abc123''" and n' = "Number 5" and r' = "Response True (Parsed cart_of_two)"
        and rq = "GET_cart"
        and v' = "Some ''40912345''" and p' = "[]" and rp' = "Response True (Parsed None)"
        and rg' = "Response True (Parsed cart_of_two)" and q' = shop_query]
    by blast
  show ?thesis using u p A B by (simp add: r f)
qed

subsection \<open>Failures at the cart API\<close>

lemma addItem_catch_result:
  "\<not> isUpdating (ctl w) \<Longrightarrow>
     only_toast_added m rq w
       (fst (addItem_catch m (issue rq (setLoading True (set_updating True w)))))
     \<and> snd (addItem_catch m (issue rq (setLoading True (set_updating True w)))) = Null"
  by (cases w; cases "ctl w"; cases "doc w")
    (simp add: only_toast_added_def addItem_catch_def effect_defs)

lemma updateItem_catch_result:
  "\<not> isUpdating (ctl w) \<Longrightarrow>
     only_toast_added ''Failed to update cart'' rq w
       (fst (updateItem_catch m (issue rq (setLoading True (set_updating True w)))))
     \<and> snd (updateItem_catch m (issue rq (setLoading True (set_updating True w)))) = Null"
  by (cases w; cases "ctl w"; cases "doc w")
    (simp add: only_toast_added_def updateItem_catch_def effect_defs)

lemma addItem_failing:
  assumes "\<not> isUpdating (ctl w)" and "failing rp"
  shows "\<exists>m. only_toast_added m (POST_add v n p) w (fst (addItem v n p rp rg q w))
             \<and> snd (addItem v n p rp rg q w) = Null"
proof -
  have "\<exists>m. addItem v n p rp rg q w
       = addItem_catch m (issue (POST_add v n p) (setLoading True (set_updating True w)))"
  proof (cases rp)
    case (Rejected m)
    then show ?thesis
      using assms by (auto simp: addItem_def addItem_request_def addItem_posted_def)
  next
    case (Response ok b)
    then have "\<not> ok" using assms by (simp add: failing_def)
    with Response assms show ?thesis
      by (cases b) (auto simp: addItem_def addItem_request_def addItem_posted_def)
  qed
  then obtain m where
    m: "addItem v n p rp rg q w
          = addItem_catch m (issue (POST_add v n p) (setLoading True (set_updating True w)))"
    by blast
  show ?thesis
    using addItem_catch_result [OF assms(1), of m "POST_add v n p"] unfolding m by blast
qed

lemma updateItem_failing:
  assumes "\<not> isUpdating (ctl w)" and "failing r"
  shows "only_toast_added ''Failed to update cart'' (POST_change k n) w
           (fst (updateItem k n r w))
         \<and> snd (updateItem k n r w) = Null"
proof -
  have "\<exists>m. updateItem k n r w
       = updateItem_catch m (issue (POST_change k n) (setLoading True (set_updating True w)))"
  proof (cases r)
    case (Rejected m)
    then show ?thesis
      using assms by (auto simp: updateItem_def updateItem_request_def updateItem_response_def)
  next
    case (Response ok b)
    then have "\<not> ok" using assms by (simp add: failing_def)
    with Response assms show ?thesis
      by (auto simp: updateItem_def updateItem_request_def updateItem_response_def)
  qed
  then show ?thesis
    using updateItem_catch_result [OF assms(1), of "POST_change k n"] by auto
qed

lemma fetchCart_failing:
  assumes "failing r"
  shows "snd (fetchCart r w) = Null
         \<and> ctl (fst (fetchCart r w)) = ctl w
         \<and> doc (fst (fetchCart r w)) = doc w
         \<and> events (fst (fetchCart r w)) = events w
         \<and> requests (fst (fetchCart r w)) = requests w @ [GET_cart]
         \<and> (\<exists>m. console (fst (fetchCart r w)) = console w @ [(''Cart fetch error:'', m)])"
  using assms
  by (auto simp: fetchCart_def fetchCart_request_def fetchCart_response_def failing_def
        issue_def console_error_def split: response.splits)

text \<open>
  Claim C2, as amended. With the flag clear, when the POST of \<^verbatim>\<open>addItem\<close>,
  \<^verbatim>\<open>updateItem\<close> or \<^verbatim>\<open>removeItem\<close> fails (rejected, or a non-success status),
  the operation resolves to \<^verbatim>\<open>null\<close>, a toast is shown (for an update or a removal
  with the text \<^verbatim>\<open>Failed to update cart\<close>), and nothing else changes: the drawer is
  open or closed as before, the rendered panel is the same, no event is dispatched. When
  the request of \<^verbatim>\<open>fetchCart\<close> fails, \<^verbatim>\<open>fetchCart\<close> resolves to \<^verbatim>\<open>null\<close>
  and leaves the controller and the whole document as they were: the failure goes to the
  console, and no toast is shown.
\<close>

theorem failures_at_the_boundary:
  assumes "\<not> isUpdating (ctl w)"
  shows "(failing rp \<longrightarrow>
            (\<exists>m. only_toast_added m (POST_add v n p) w (fst (addItem v n p rp rg q w)))
            \<and> snd (addItem v n p rp rg q w) = Null)
         \<and> (failing r \<longrightarrow>
              only_toast_added ''Failed to update cart'' (POST_change k n) w
                (fst (updateItem k n r w))
            \<and> snd (updateItem k n r w) = Null
            \<and> only_toast_added ''Failed to update cart'' (POST_change k (Number 0)) w
                (fst (removeItem k r w))
            \<and> snd (removeItem k r w) = Null)
         \<and> (failing r \<longrightarrow>
              snd (fetchCart r u) = Null
            \<and> ctl (fst (fetchCart r u)) = ctl u
            \<and> doc (fst (fetchCart r u)) = doc u
            \<and> events (fst (fetchCart r u)) = events u
            \<and> requests (fst (fetchCart r u)) = requests u @ [GET_cart]
            \<and> (\<exists>m. console (fst (fetchCart r u))
                       = console u @ [(''Cart fetch error:'', m)]))"
  using addItem_failing [OF assms, of rp v n p rg q]
    updateItem_failing [OF assms, of r k n] updateItem_failing [OF assms, of r k "Number 0"]
    fetchCart_failing [of r u]
  by (auto simp: removeItem_def)

lemma shop_fields:
  "ctl shop = full_markup" "doc shop = shop_page" "requests shop = [GET_cart]"
  "events shop = []" "console shop = []"
  by (simp_all add: shop_def CartDrawer_def full_markup_def fetchCart_request_def issue_def)

text \<open>
  The claim C2 as stated asks for a toast on every failing operation. A rejected
  \<^verbatim>\<open>fetchCart\<close> on the shop page resolves to \<^verbatim>\<open>null\<close> and leaves the page without
  any toast.
\<close>

theorem fetchCart_failure_is_silent:
  "failing (Rejected ''Failed to fetch'' :: cart response)
   \<and> snd (fetchCart (Rejected ''Failed to fetch'') shop) = Null
   \<and> toasts (doc (fst (fetchCart (Rejected ''Failed to fetch'') shop))) = toasts (doc shop)
   \<and> toasts (doc shop) = []"
  by (simp add: failing_def fetchCart_def fetchCart_request_def fetchCart_response_def
        issue_def console_error_def shop_fields shop_page_def)

theorem failures_at_the_boundary_witness:
  "\<not> isUpdating (ctl shop)
   \<and> failing (Response False (Parsed (Some ''Sold out'')) :: string option response)
   \<and> failing (Rejected ''Failed to fetch'' :: cart response)
   \<and> snd (addItem (Some ''40912345'') (Number 3) [] (Response False (Parsed (Some ''Sold out'')))
            (Rejected ''Failed to fetch'') shop_query shop) = Null
   \<and> toasts (doc (fst (updateItem ''abc123'' (Number 3) (Rejected ''Failed to fetch'') shop)))
       = [''Failed to update cart'']
   \<and> isOpen (ctl (fst (updateItem ''abc123'' (Number 3) (Rejected ''Failed to fetch'') shop)))
       = False
   \<and> doc (fst (fetchCart (Rejected ''Failed to fetch'') shop)) = doc shop"
proof -
  have u: "\<not> isUpdating (ctl shop)" using shop_ctl by simp
  have f1: "failing (Response False (Parsed (Some ''Sold out'')) :: string option response)"
    by (simp add: failing_def)
  have f2: "failing (Rejected ''Failed to fetch'' :: cart response)"
    by (simp add: failing_def)
  show ?thesis
    using u f1 f2
      failures_at_the_boundary [OF u,
        where rp = "Response False (Parsed (Some ''Sold out''))" and v = "Some ''40912345''"
          and n = "Number 3" and p = "[]" and rg = "Rejected ''Failed to fetch''"
          and q = shop_query and r = "Rejected ''Failed to fetch''" and k = "''abc123''"
          and u = shop]
    by (simp add: only_toast_added_def shop_fields shop_page_def full_markup_def)
qed

subsection \<open>Adding an item\<close>

lemma addItem_success:
  assumes "\<not> isUpdating (ctl w)"
  shows "addItem v n p (Response True b) rg q w
           = addItem_fetched v n rg q
               (issue GET_cart (issue (POST_add v n p) (setLoading True (set_updating True w))))"
  using assms
  by (simp add: addItem_def addItem_request_def addItem_posted_def fetchCart_request_def)

lemma pending_fields:
  "ctl (issue r2 (issue r1 (setLoading True (set_updating True w))))
     = (ctl w)\<lparr>isUpdating := True\<rparr>"
  "requests (issue r2 (issue r1 (setLoading True (set_updating True w))))
     = requests w @ [r1, r2]"
  "events (issue r2 (issue r1 (setLoading True (set_updating True w)))) = events w"
  "badges (doc (issue r2 (issue r1 (setLoading True (set_updating True w)))))
     = badges (doc w)"
  "subtotal_text (doc (issue r2 (issue r1 (setLoading True (set_updating True w)))))
     = subtotal_text (doc w)"
  "empty_display (doc (issue r2 (issue r1 (setLoading True (set_updating True w)))))
     = empty_display (doc w)"
  "content_display (doc (issue r2 (issue r1 (setLoading True (set_updating True w)))))
     = content_display (doc w)"
  "items_html (doc (issue r2 (issue r1 (setLoading True (set_updating True w)))))
     = items_html (doc w)"
  "toasts (doc (issue r2 (issue r1 (setLoading True (set_updating True w)))))
     = toasts (doc w)"
  by (simp_all add: effect_defs)

lemma finally_block_doc:
  "badges (doc (finally_block w)) = badges (doc w)"
  "subtotal_text (doc (finally_block w)) = subtotal_text (doc w)"
  "empty_display (doc (finally_block w)) = empty_display (doc w)"
  "content_display (doc (finally_block w)) = content_display (doc w)"
  "items_html (doc (finally_block w)) = items_html (doc w)"
  "toasts (doc (finally_block w)) = toasts (doc w)"
  by (simp_all add: effect_defs)

lemma dispatch_fields:
  "ctl (dispatch e w) = ctl w" "doc (dispatch e w) = doc w"
  "requests (dispatch e w) = requests w" "events (dispatch e w) = events w @ [e]"
  by (simp_all add: dispatch_def)

lemma addItem_fetched_cart:
  "snd (addItem_fetched v n (Response True (Parsed c)) q w) = Value c
   \<and> requests (fst (addItem_fetched v n (Response True (Parsed c)) q w)) = requests w
   \<and> events (fst (addItem_fetched v n (Response True (Parsed c)) q w))
       = events w @ [Item_added v n (Some c)]
   \<and> badges (doc (fst (addItem_fetched v n (Response True (Parsed c)) q w)))
       = map (\<lambda>_. (number_text (item_count c), if item_count c > 0 then '''' else ''none''))
           (badges (doc w))
   \<and> subtotal_text (doc (fst (addItem_fetched v n (Response True (Parsed c)) q w)))
       = (if subtotalElement (ctl w) then formatMoney (total_price c)
          else subtotal_text (doc w))
   \<and> items_html (doc (fst (addItem_fetched v n (Response True (Parsed c)) q w)))
       = (if itemsContainer (ctl w) then Items_markup (items c) else items_html (doc w))
   \<and> toasts (doc (fst (addItem_fetched v n (Response True (Parsed c)) q w)))
       = toasts (doc w)
   \<and> isOpen (ctl (fst (addItem_fetched v n (Response True (Parsed c)) q w)))
       = (drawer (ctl w) \<or> isOpen (ctl w))"
  by (simp add: addItem_fetched_def fetchCart_response_def Let_def finally_block_fields
        finally_block_doc dispatch_fields open_drawer_fields renderCart_fields renderCart_doc)

text \<open>
  Claim C3. A call \<^verbatim>\<open>addItem(variantId, quantity, properties)\<close> that issues its POST
  (the flag is clear), whose POST succeeds and whose follow-up fetch returns a cart: the
  operation sends the POST and then the GET of the cart, renders the panel from that
  cart (every badge shows \<^verbatim>\<open>item_count\<close> and is hidden unless the count is
  positive, the subtotal element, if the page has one, shows \<^verbatim>\<open>total_price\<close> as
  money, the items container, if the page has one, holds the cart's lines), opens the
  drawer (if the page has one), dispatches \<^verbatim>\<open>cart:item-added\<close> with the variant id,
  the quantity and the cart, shows no toast, and resolves with the cart.
\<close>

theorem addItem_success_renders_and_opens:
  assumes "\<not> isUpdating (ctl w)"
  shows "snd (addItem v n p (Response True b) (Response True (Parsed c)) q w) = Value c
   \<and> requests (fst (addItem v n p (Response True b) (Response True (Parsed c)) q w))
       = requests w @ [POST_add v n p, GET_cart]
   \<and> events (fst (addItem v n p (Response True b) (Response True (Parsed c)) q w))
       = events w @ [Item_added v n (Some c)]
   \<and> badges (doc (fst (addItem v n p (Response True b) (Response True (Parsed c)) q w)))
       = map (\<lambda>_. (number_text (item_count c), if item_count c > 0 then '''' else ''none''))
           (badges (doc w))
   \<and> subtotal_text (doc (fst (addItem v n p (Response True b) (Response True (Parsed c)) q w)))
       = (if subtotalElement (ctl w) then formatMoney (total_price c)
          else subtotal_text (doc w))
   \<and> items_html (doc (fst (addItem v n p (Response True b) (Response True (Parsed c)) q w)))
       = (if itemsContainer (ctl w) then Items_markup (items c) else items_html (doc w))
   \<and> toasts (doc (fst (addItem v n p (Response True b) (Response True (Parsed c)) q w)))
       = toasts (doc w)
   \<and> isOpen (ctl (fst (addItem v n p (Response True b) (Response True (Parsed c)) q w)))
       = (drawer (ctl w) \<or> isOpen (ctl w))"
  unfolding addItem_success [OF assms]
  using addItem_fetched_cart [of v n c q
      "issue GET_cart (issue (POST_add v n p) (setLoading True (set_updating True w)))"]
  by (simp add: pending_fields)

lemma formatMoney_4000: "formatMoney 4000 = ''$40.00''"
  using formatMoney_exact [of 4000] by (simp add: show_nat.simps digit_char_def)

text \<open>
  The scenario of the specification: \<^verbatim>\<open>addItem("40912345", 2, {})\<close> on the shop page,
  a successful POST and a cart with \<^verbatim>\<open>item_count: 2, total_price: 4000\<close>.
\<close>

theorem addItem_success_renders_and_opens_witness:
  "\<not> isUpdating (ctl shop)
   \<and> snd (addItem (Some ''40912345'') (Number 2) [] (Response True (Unparsable []))
            (Response True (Parsed cart_of_two)) shop_query shop) = Value cart_of_two
   \<and> events (fst (addItem (Some ''40912345'') (Number 2) [] (Response True (Unparsable []))
            (Response True (Parsed cart_of_two)) shop_query shop))
       = [Item_added (Some ''40912345'') (Number 2) (Some cart_of_two)]
   \<and> badges (doc (fst (addItem (Some ''40912345'') (Number 2) [] (Response True (Unparsable []))
            (Response True (Parsed cart_of_two)) shop_query shop)))
       = [(''2'', ''''), (''2'', '''')]
   \<and> subtotal_text (doc (fst (addItem (Some ''40912345'') (Number 2) []
            (Response True (Unparsable [])) (Response True (Parsed cart_of_two)) shop_query shop)))
       = ''$40.00''
   \<and> isOpen (ctl (fst (addItem (Some ''40912345'') (Number 2) [] (Response True (Unparsable []))
            (Response True (Parsed cart_of_two)) shop_query shop)))"
proof -
  have u: "\<not> isUpdating (ctl shop)" using shop_ctl by simp
  show ?thesis
    using u addItem_success_renders_and_opens [OF u, where v = "Some ''40912345''"
        and n = "Number 2" and p = "[]" and b = "Unparsable []" and c = cart_of_two
        and q = shop_query]
    by (simp add: shop_fields shop_page_def full_markup_def cart_of_two_def number_text_2
          formatMoney_4000)
qed

lemma addItem_fetched_null:
  assumes "fetch_failed rg"
  shows "snd (addItem_fetched v n rg q w) = Null
   \<and> requests (fst (addItem_fetched v n rg q w)) = requests w
   \<and> events (fst (addItem_fetched v n rg q w)) = events w @ [Item_added v n None]
   \<and> isOpen (ctl (fst (addItem_fetched v n rg q w))) = (drawer (ctl w) \<or> isOpen (ctl w))
   \<and> badges (doc (fst (addItem_fetched v n rg q w))) = badges (doc w)
   \<and> subtotal_text (doc (fst (addItem_fetched v n rg q w))) = subtotal_text (doc w)
   \<and> empty_display (doc (fst (addItem_fetched v n rg q w))) = empty_display (doc w)
   \<and> content_display (doc (fst (addItem_fetched v n rg q w))) = content_display (doc w)
   \<and> items_html (doc (fst (addItem_fetched v n rg q w))) = items_html (doc w)
   \<and> toasts (doc (fst (addItem_fetched v n rg q w))) = toasts (doc w)"
proof -
  have "\<exists>m. fetchCart_response rg w = (console_error ''Cart fetch error:'' m w, Null)"
  proof (cases rg)
    case (Rejected m)
    then show ?thesis by (auto simp: fetchCart_response_def)
  next
    case (Response ok b)
    show ?thesis
    proof (cases ok)
      case True
      with Response assms obtain m where "b = Unparsable m"
        by (cases b) (simp_all add: fetch_failed_def)
      with Response True show ?thesis by (auto simp: fetchCart_response_def)
    next
      case False
      with Response show ?thesis by (auto simp: fetchCart_response_def)
    qed
  qed
  then obtain m where
    "fetchCart_response rg w = (console_error ''Cart fetch error:'' m w, Null)"
    by blast
  then show ?thesis
    by (simp add: addItem_fetched_def Let_def finally_block_fields finally_block_doc
          dispatch_fields open_drawer_fields console_error_def)
qed

text \<open>
  Claim C10. A call of \<^verbatim>\<open>addItem\<close> that issues its POST, whose POST succeeds and
  whose follow-up fetch gives no cart: the drawer is opened all the same (if the page has
  one), \<^verbatim>\<open>cart:item-added\<close> is dispatched with \<^verbatim>\<open>null\<close> for the cart, the
  operation resolves with \<^verbatim>\<open>null\<close>, no toast is shown, and the rendered panel
  (badges, subtotal, empty and content regions, items) is what it was before the call.
\<close>

theorem addItem_follow_up_fetch_fails:
  assumes "\<not> isUpdating (ctl w)" and "fetch_failed rg"
  shows "snd (addItem v n p (Response True b) rg q w) = Null
   \<and> requests (fst (addItem v n p (Response True b) rg q w))
       = requests w @ [POST_add v n p, GET_cart]
   \<and> events (fst (addItem v n p (Response True b) rg q w))
       = events w @ [Item_added v n None]
   \<and> isOpen (ctl (fst (addItem v n p (Response True b) rg q w)))
       = (drawer (ctl w) \<or> isOpen (ctl w))
   \<and> badges (doc (fst (addItem v n p (Response True b) rg q w))) = badges (doc w)
   \<and> subtotal_text (doc (fst (addItem v n p (Response True b) rg q w)))
       = subtotal_text (doc w)
   \<and> empty_display (doc (fst (addItem v n p (Response True b) rg q w)))
       = empty_display (doc w)
   \<and> content_display (doc (fst (addItem v n p (Response True b) rg q w)))
       = content_display (doc w)
   \<and> items_html (doc (fst (addItem v n p (Response True b) rg q w))) = items_html (doc w)
   \<and> toasts (doc (fst (addItem v n p (Response True b) rg q w))) = toasts (doc w)"
  unfolding addItem_success [OF assms(1)]
  using addItem_fetched_null [OF assms(2), of v n q
      "issue GET_cart (issue (POST_add v n p) (setLoading True (set_updating True w)))"]
  by (simp add: pending_fields)

theorem addItem_follow_up_fetch_fails_witness:
  "\<not> isUpdating (ctl shop)
   \<and> fetch_failed (Rejected ''Failed to fetch'')
   \<and> snd (addItem (Some ''40912345'') (Number 2) [] (Response True (Parsed None))
            (Rejected ''Failed to fetch'') shop_query shop) = Null
   \<and> events (fst (addItem (Some ''40912345'') (Number 2) [] (Response True (Parsed None))
            (Rejected ''Failed to fetch'') shop_query shop))
       = [Item_added (Some ''40912345'') (Number 2) None]
   \<and> isOpen (ctl (fst (addItem (Some ''40912345'') (Number 2) [] (Response True (Parsed None))
            (Rejected ''Failed to fetch'') shop_query shop)))
   \<and> badges (doc (fst (addItem (Some ''40912345'') (Number 2) [] (Response True (Parsed None))
            (Rejected ''Failed to fetch'') shop_query shop)))
       = [(''0'', ''none''), (''0'', ''none'')]
   \<and> toasts (doc (fst (addItem (Some ''40912345'') (Number 2) [] (Response True (Parsed None))
            (Rejected ''Failed to fetch'') shop_query shop))) = []"
proof -
  have u: "\<not> isUpdating (ctl shop)" using shop_ctl by simp
  have f: "fetch_failed (Rejected ''Failed to fetch'')" by (simp add: fetch_failed_def)
  show ?thesis
    using u f addItem_follow_up_fetch_fails [OF u f, where v = "Some ''40912345''"
        and n = "Number 2" and p = "[]" and b = "Parsed None" and q = shop_query]
    by (simp add: shop_fields shop_page_def full_markup_def)
qed

subsection \<open>The message of a refused add\<close>

text \<open>
  When the POST of \<^verbatim>\<open>addItem\<close> comes back with a non-success status, the toast shows
  the \<^verbatim>\<open>description\<close> of the parsed body, or \<^verbatim>\<open>Failed to add item\<close> when the
  parsed body has none (or an empty one); when the body cannot be parsed, the toast shows
  the parser's message. In each case the drawer stays as it was and no event is
  dispatched.
\<close>

lemma addItem_error_toast:
  assumes "\<not> isUpdating (ctl w)"
  shows "toasts (doc (fst (addItem v n p (Response False (Parsed d)) rg q w)))
           = toasts (doc w) @
               [case d of None \<Rightarrow> ''Failed to add item''
                | Some s \<Rightarrow> if s = [] then ''Failed to add item'' else s]"
    and "toasts (doc (fst (addItem v n p (Response False (Unparsable m)) rg q w)))
           = toasts (doc w) @ [m]"
    and "isOpen (ctl (fst (addItem v n p (Response False b) rg q w))) = isOpen (ctl w)"
    and "events (fst (addItem v n p (Response False b) rg q w)) = events w"
  using assms
  by (simp_all add: addItem_def addItem_request_def addItem_posted_def addItem_catch_def
        effect_defs split: body.splits)

text \<open>
  Claim C4, at the input where the script departs from it. The claim asks for the generic
  message when the body of the refused add cannot be parsed. On the shop page, a refused
  add whose body is not JSON (\<^verbatim>\<open>response.json()\<close> throws with the message
  \<^verbatim>\<open>Unexpected token < in JSON at position 0\<close>) leaves a toast with that message,
  not with \<^verbatim>\<open>Failed to add item\<close>.
\<close>

theorem addItem_error_body_unparsable:
  "toasts (doc (fst (addItem (Some ''40912345'') (Number 1) []
       (Response False (Unparsable ''Unexpected token < in JSON at position 0''))
       (Rejected []) shop_query shop)))
     = [''Unexpected token < in JSON at position 0'']
   \<and> toasts (doc (fst (addItem (Some ''40912345'') (Number 1) []
       (Response False (Unparsable ''Unexpected token < in JSON at position 0''))
       (Rejected []) shop_query shop)))
     \<noteq> [''Failed to add item'']"
proof -
  have u: "\<not> isUpdating (ctl shop)" using shop_ctl by simp
  show ?thesis
    by (simp add: addItem_error_toast(2) [OF u] shop_fields shop_page_def)
qed

subsection \<open>Quantity steppers\<close>

text \<open>
  The stepper reads 1 when the field is missing or empty, adds the change and clamps at
  zero whenever the text it reads parses; a non-empty text that does not parse gives
  \<^verbatim>\<open>NaN\<close>, which neither the addition nor \<^verbatim>\<open>Math.max\<close> removes.
\<close>

lemma parseInt10_one: "parseInt10 ''1'' = Number 1"
  by (simp add: parseInt10_def is_js_space_def is_digit_def dec_val_def digit_val_def)

lemma stepped_quantity_parsed:
  "parseInt10 (or_default field ''1'') = Number c \<Longrightarrow>
     stepped_quantity field d = Number (max 0 (c + d))"
  by (simp add: stepped_quantity_def js_add_def js_max0_def)

lemma stepped_quantity_missing:
  "stepped_quantity None d = Number (max 0 (1 + d))"
  "stepped_quantity (Some []) d = Number (max 0 (1 + d))"
  by (simp_all add: stepped_quantity_parsed or_default_def parseInt10_one)

lemma stepped_quantity_unparsed:
  "field \<noteq> [] \<Longrightarrow> parseInt10 field = NaN \<Longrightarrow> stepped_quantity (Some field) d = NaN"
  by (simp add: stepped_quantity_def or_default_def js_add_def js_max0_def)

lemma parseInt10_point_five: "parseInt10 ''.5'' = NaN"
  by (simp add: parseInt10_def is_js_space_def is_digit_def)

lemma parseInt10_abc: "parseInt10 ''abc'' = NaN"
  by (simp add: parseInt10_def is_js_space_def is_digit_def)

text \<open>
  Claim C5, at the input where the script departs from it. The claim asks for the default
  1 whenever the quantity field does not parse. With \<^verbatim>\<open>.5\<close> in the field (a value a
  number field accepts), a click on the increment control calls \<^verbatim>\<open>updateItem\<close> with
  \<^verbatim>\<open>NaN\<close>; and a form whose quantity field holds \<^verbatim>\<open>abc\<close> gives \<^verbatim>\<open>addItem\<close>
  the quantity \<^verbatim>\<open>NaN\<close>.
\<close>

theorem stepper_unparsable_quantity:
  "stepped_quantity (Some ''.5'') 1 = NaN
   \<and> requests (handleQuantityChange ''abc123'' (Some ''.5'') 1
                 (Response True (Parsed cart_of_two)) shop)
       = [GET_cart, POST_change ''abc123'' NaN]
   \<and> form_quantity \<lparr>entries = [(''id'', ''40912345''), (''quantity'', ''abc'')],
                     submit = None\<rparr> = NaN"
proof -
  have s: "stepped_quantity (Some ''.5'') 1 = NaN"
    by (simp add: stepped_quantity_unparsed parseInt10_point_five)
  have r: "requests (handleQuantityChange ''abc123'' (Some ''.5'') 1
                 (Response True (Parsed cart_of_two)) shop)
       = [GET_cart, POST_change ''abc123'' NaN]"
    using shop_ctl
    by (simp add: handleQuantityChange_def s updateItem_def updateItem_request_def
          updateItem_response_def finally_block_fields dispatch_fields renderCart_fields
          effect_defs shop_fields)
  have f: "form_quantity \<lparr>entries = [(''id'', ''40912345''), (''quantity'', ''abc'')],
                     submit = None\<rparr> = NaN"
    by (simp add: form_quantity_def or_default_def parseInt10_abc)
  from s r f show ?thesis by blast
qed

subsection \<open>The focus trap\<close>

lemma next_after_nth:
  "distinct fs \<Longrightarrow> Suc i < length fs \<Longrightarrow> next_after (fs ! i) fs = Some (fs ! Suc i)"
proof (induction fs arbitrary: i)
  case Nil
  then show ?case by simp
next
  case (Cons x xs)
  then obtain y ys where xs: "xs = y # ys" by (cases xs) auto
  show ?case
  proof (cases i)
    case 0
    then show ?thesis by (simp add: xs)
  next
    case (Suc j)
    have j: "Suc j < length xs" using Cons.prems(2) Suc by simp
    then have "xs ! j \<in> set xs" by simp
    then have ne: "x \<noteq> xs ! j" using Cons.prems(1) by auto
    have "next_after (xs ! j) xs = Some (xs ! Suc j)"
      using Cons.IH [of j] Cons.prems(1) j by simp
    then have "next_after (xs ! j) (x # y # ys) = Some (xs ! Suc j)"
      using ne by (simp add: xs)
    then show ?thesis by (simp add: Suc xs)
  qed
qed

lemma handleTabKey_cases:
  assumes "drawer (ctl w)" and "isOpen (ctl w)"
  shows "focusable q = [] \<Longrightarrow> drawer_keydown ''Tab'' q s w = (w, True)"
    and "focusable q \<noteq> [] \<Longrightarrow> activeElement (doc w) = Some (last (focusable q)) \<Longrightarrow>
           drawer_keydown ''Tab'' q False w = (focus (hd (focusable q)) w, True)"
    and "focusable q \<noteq> [] \<Longrightarrow> activeElement (doc w) = Some (hd (focusable q)) \<Longrightarrow>
           drawer_keydown ''Tab'' q True w = (focus (last (focusable q)) w, True)"
    and "focusable q \<noteq> [] \<Longrightarrow> activeElement (doc w) \<noteq> Some (last (focusable q)) \<Longrightarrow>
           drawer_keydown ''Tab'' q False w = (w, False)"
  using assms
  by (simp_all add: drawer_keydown_def handleTabKey_def getFocusableElements_def Let_def)

lemma press_tab_forward:
  assumes "drawer (ctl w)" and "isOpen (ctl w)" and "distinct (focusable q)"
    and "Suc i < length (focusable q)" and "activeElement (doc w) = Some (focusable q ! i)"
  shows "drawer (ctl (press_tab q False w)) \<and> isOpen (ctl (press_tab q False w))
         \<and> activeElement (doc (press_tab q False w)) = Some (focusable q ! Suc i)"
proof -
  have ne: "focusable q \<noteq> []" using assms(4) by auto
  have "focusable q ! i \<noteq> last (focusable q)"
    using assms(3,4) by (simp add: last_conv_nth ne nth_eq_iff_index_eq)
  then have "drawer_keydown ''Tab'' q False w = (w, False)"
    using handleTabKey_cases(4) [OF assms(1,2) ne] assms(5) by simp
  then show ?thesis
    using assms by (simp add: press_tab_def default_tab_def next_after_nth)
qed

lemma press_tab_iterate:
  assumes "drawer (ctl w)" and "isOpen (ctl w)" and "distinct (focusable q)"
    and "activeElement (doc w) = Some (focusable q ! 0)"
  shows "i < length (focusable q) \<Longrightarrow>
           drawer (ctl ((press_tab q False ^^ i) w)) \<and> isOpen (ctl ((press_tab q False ^^ i) w))
           \<and> activeElement (doc ((press_tab q False ^^ i) w)) = Some (focusable q ! i)"
proof (induction i)
  case 0
  then show ?case using assms by simp
next
  case (Suc i)
  then have "drawer (ctl ((press_tab q False ^^ i) w)) \<and> isOpen (ctl ((press_tab q False ^^ i) w))
           \<and> activeElement (doc ((press_tab q False ^^ i) w)) = Some (focusable q ! i)"
    by simp
  then show ?case
    using press_tab_forward [of "(press_tab q False ^^ i) w" q i] assms(3) Suc.prems by simp
qed

lemma press_tab_cycle:
  assumes "drawer (ctl w)" and "isOpen (ctl w)" and "distinct (focusable q)"
    and "focusable q \<noteq> []" and "activeElement (doc w) = Some (hd (focusable q))"
  shows "activeElement (doc ((press_tab q False ^^ length (focusable q)) w))
           = Some (hd (focusable q))"
proof -
  obtain m where m: "length (focusable q) = Suc m"
    using assms(4) by (cases "focusable q") auto
  have a0: "activeElement (doc w) = Some (focusable q ! 0)"
    using assms(4,5) by (simp add: hd_conv_nth)
  have st: "drawer (ctl ((press_tab q False ^^ m) w)) \<and> isOpen (ctl ((press_tab q False ^^ m) w))
           \<and> activeElement (doc ((press_tab q False ^^ m) w)) = Some (focusable q ! m)"
    using press_tab_iterate [OF assms(1,2,3) a0, of m] m by simp
  have "focusable q ! m = last (focusable q)"
    using m assms(4) by (simp add: last_conv_nth)
  with st have "drawer_keydown ''Tab'' q False ((press_tab q False ^^ m) w)
      = (focus (hd (focusable q)) ((press_tab q False ^^ m) w), True)"
    using handleTabKey_cases(2) [of "(press_tab q False ^^ m) w" q] assms(4) by simp
  then have "activeElement (doc (press_tab q False ((press_tab q False ^^ m) w)))
      = Some (hd (focusable q))"
    by (simp add: press_tab_def focus_def)
  then show ?thesis by (simp add: m)
qed

text \<open>
  Claim C6. On an open drawer, for a Tab key that reaches the drawer's listener: with no
  focusable element in the drawer the key is suppressed and the focus stays; Tab on the
  last focusable element is suppressed and the focus goes to the first; Shift+Tab on the
  first is suppressed and the focus goes to the last. With the browser moving the focus
  along the list on every Tab that is not suppressed, as many presses of Tab as the
  drawer has (distinct) focusable elements, starting on the first, end on the first.
\<close>

theorem focus_trap:
  assumes "drawer (ctl w)" and "isOpen (ctl w)"
  shows "(focusable q = [] \<longrightarrow> drawer_keydown ''Tab'' q s w = (w, True))
   \<and> (focusable q \<noteq> [] \<and> activeElement (doc w) = Some (last (focusable q)) \<longrightarrow>
        drawer_keydown ''Tab'' q False w = (focus (hd (focusable q)) w, True))
   \<and> (focusable q \<noteq> [] \<and> activeElement (doc w) = Some (hd (focusable q)) \<longrightarrow>
        drawer_keydown ''Tab'' q True w = (focus (last (focusable q)) w, True))
   \<and> (focusable q \<noteq> [] \<and> distinct (focusable q)
        \<and> activeElement (doc w) = Some (hd (focusable q)) \<longrightarrow>
        activeElement (doc ((press_tab q False ^^ length (focusable q)) w))
          = Some (hd (focusable q)))"
  using handleTabKey_cases(1,2,3) [OF assms, of q] press_tab_cycle [OF assms, of q]
  by blast

lemma opened_shop:
  "drawer (ctl (open_drawer shop_query shop))"
  "isOpen (ctl (open_drawer shop_query shop))"
  "activeElement (doc (open_drawer shop_query shop)) = Some (Node 1)"
  by (simp_all add: open_drawer_def Let_def focus_def lockScroll_def getFocusableElements_def
        shop_fields full_markup_def shop_query_def)

theorem focus_trap_witness:
  "drawer (ctl (open_drawer shop_query shop)) \<and> isOpen (ctl (open_drawer shop_query shop))
   \<and> focusable shop_query = [Node 1, Node 2, Node 3]
   \<and> activeElement (doc (open_drawer shop_query shop)) = Some (Node 1)
   \<and> activeElement (doc ((press_tab shop_query False ^^ 3) (open_drawer shop_query shop)))
       = Some (Node 1)
   \<and> drawer_keydown ''Tab'' shop_query True (open_drawer shop_query shop)
       = (focus (Node 3) (open_drawer shop_query shop), True)
   \<and> drawer_keydown ''Tab'' shop_query False (focus (Node 3) (open_drawer shop_query shop))
       = (focus (Node 1) (focus (Node 3) (open_drawer shop_query shop)), True)
   \<and> drawer_keydown ''Tab'' (shop_query\<lparr>focusable := []\<rparr>) False (open_drawer shop_query shop)
       = (open_drawer shop_query shop, True)"
proof -
  have d: "drawer (ctl (open_drawer shop_query shop))"
    and i: "isOpen (ctl (open_drawer shop_query shop))"
    and a: "activeElement (doc (open_drawer shop_query shop)) = Some (Node 1)"
    by (rule opened_shop)+
  have f: "focusable shop_query = [Node 1, Node 2, Node 3]" by (simp add: shop_query_def)
  have d3: "drawer (ctl (focus (Node 3) (open_drawer shop_query shop)))"
    and i3: "isOpen (ctl (focus (Node 3) (open_drawer shop_query shop)))"
    and a3: "activeElement (doc (focus (Node 3) (open_drawer shop_query shop))) = Some (Node 3)"
    using d i by (simp_all add: focus_def)
  show ?thesis
    using d i a f a3
      focus_trap [OF d i, where q = shop_query]
      focus_trap [OF d3 i3, where q = shop_query]
      focus_trap [OF d i, where q = "shop_query\<lparr>focusable := []\<rparr>" and s = False]
    by (simp add: numeral_3_eq_3)
qed

end
